theory Spec2Isabelle
  imports Main "HOL-Library.AList" "HOL-Library.Sublist" "HOL-Library.Char_ord"
    "HOL-Library.List_Lexorder"
begin

section \<open>Python values used by the model\<close>

text \<open>
  The sources are Python 3 (\<^verbatim>\<open>super()\<close> without arguments, \<^verbatim>\<open>async def\<close>, imports
  from \<^verbatim>\<open>asyncio\<close>), so \<^verbatim>\<open>map\<close> returns a lazy iterator. A dictionary is an
  association list in insertion order: \<open>AList.update\<close> overwrites a present key in place and
  appends a new key at the end, \<open>AList.delete\<close> removes a key, \<open>map_of\<close> looks a key up.
  Exceptions are values of \<open>py_error\<close>.
\<close>

datatype py_error =
    KeyError | IndexError | TypeError | AttributeError | UnboundLocalError | OtherException
  | NoCurrentExceptionError | PluginError | EventAlreadyExistsError | EventDoesNotExistError | EventCallbackError

text \<open>
  A call returns a value or raises, and leaves a state behind in both cases. \<open>Diverge\<close> is
  a call that does not return: the only loop of the sources that may run forever is the
  one that draws callback identifiers.
\<close>

datatype ('a, 's) res = Return 'a 's | Raise py_error 's | Diverge

subsection \<open>Strings\<close>

text \<open>
  \<^verbatim>\<open>str.lower\<close> on ASCII text: the letters A to Z are mapped, every other byte is left as
  it is. The case mappings of Unicode beyond ASCII are not modelled.
\<close>

definition lower_char :: "char \<Rightarrow> char" where
  "lower_char c =
     (case map_of (zip ''ABCDEFGHIJKLMNOPQRSTUVWXYZ'' ''abcdefghijklmnopqrstuvwxyz'') c of
        Some d \<Rightarrow> d
      | None \<Rightarrow> c)"

definition lower :: "string \<Rightarrow> string" where
  "lower s = map lower_char s"

text \<open>\<^verbatim>\<open>s.partition(sep)\<close> for a separator of one character.\<close>

definition str_partition :: "char \<Rightarrow> string \<Rightarrow> string \<times> string \<times> string" where
  "str_partition sep s =
     (if sep \<in> set s
      then (takeWhile (\<lambda>x. x \<noteq> sep) s, [sep], tl (dropWhile (\<lambda>x. x \<noteq> sep) s))
      else (s, [], []))"

definition startswith :: "string \<Rightarrow> string \<Rightarrow> bool" where
  "startswith s p = (take (length p) s = p)"

text \<open>\<^verbatim>\<open>sub in s\<close> on strings: \<open>sub\<close> occurs in \<open>s\<close> as a contiguous substring.\<close>

fun str_contains :: "string \<Rightarrow> string \<Rightarrow> bool" where
  "str_contains sub [] = (sub = [])"
| "str_contains sub (c # cs) = (take (length sub) (c # cs) = sub \<or> str_contains sub cs)"

text \<open>\<^verbatim>\<open>s.replace(old, '')\<close>: every occurrence of \<open>old\<close> is dropped, left to right.\<close>

function str_remove :: "string \<Rightarrow> string \<Rightarrow> string" where
  "str_remove old [] = []"
| "str_remove old (c # cs) =
     (if old \<noteq> [] \<and> take (length old) (c # cs) = old
      then str_remove old (drop (length old) (c # cs))
      else c # str_remove old cs)"
  by pat_completeness auto
termination
  by (relation "measure (\<lambda>(old, s). length s)") auto

text \<open>
  \<^verbatim>\<open>s.split()\<close> on ASCII text: the maximal runs of characters that are not whitespace.
  The whitespace of Unicode beyond ASCII (U+0085, U+00A0 and others) is not modelled.
\<close>

definition is_space :: "char \<Rightarrow> bool" where
  "is_space c \<longleftrightarrow>
     c \<in> set [CHR '' '', CHR 0x09, CHR 0x0A, CHR 0x0B, CHR 0x0C, CHR 0x0D,
              CHR 0x1C, CHR 0x1D, CHR 0x1E, CHR 0x1F]"

fun split_aux :: "string \<Rightarrow> string \<Rightarrow> string list" where
  "split_aux cur [] = (if cur = [] then [] else [cur])"
| "split_aux cur (c # cs) =
     (if is_space c
      then (if cur = [] then split_aux [] cs else cur # split_aux [] cs)
      else split_aux (cur @ [c]) cs)"

definition split_ws :: "string \<Rightarrow> string list" where
  "split_ws s = split_aux [] s"

section \<open>Domain model (utils.py)\<close>

subsection \<open>User\<close>

record user =
  u_nick :: string
  u_user :: string
  u_host :: string
  u_modes :: string
  is_self :: bool

definition User_init :: "string \<Rightarrow> user" where
  "User_init msk =
     (case str_partition CHR ''!'' msk of (n, _, rest) \<Rightarrow>
        (case str_partition CHR ''@'' rest of (u, _, h) \<Rightarrow>
           \<lparr>u_nick = n, u_user = u, u_host = h, u_modes = [], is_self = False\<rparr>))"

text \<open>An argument that is either a string or a \<open>User\<close> object (\<^verbatim>\<open>type(user) is User\<close>).\<close>

datatype user_arg = Str string | Obj user

definition User_setMode :: "bool \<Rightarrow> string \<Rightarrow> string option \<Rightarrow> user \<Rightarrow> user" where
  "User_setMode added mode arg u =
     (if added \<and> \<not> str_contains mode (u_modes u) then u\<lparr>u_modes := u_modes u @ mode\<rparr>
      else if \<not> added \<and> str_contains mode (u_modes u)
      then u\<lparr>u_modes := str_remove mode (u_modes u)\<rparr>
      else u)"

subsection \<open>Channel\<close>

record channel =
  ch_name :: string
  ch_users :: "string list"
  ch_modes :: string
  qops :: "string list"
  sops :: "string list"
  aops :: "string list"
  hops :: "string list"
  vops :: "string list"
  bans :: "string list"
  isUser :: bool

definition Channel_init :: "string \<Rightarrow> channel" where
  "Channel_init name =
     \<lparr>ch_name = name, ch_users = [], ch_modes = [], qops = [], sops = [], aops = [],
      hops = [], vops = [], bans = [], isUser = (\<not> startswith name ''#'')\<rparr>"

text \<open>
  The list attributes reached through \<^verbatim>\<open>getattr\<close>. \<^verbatim>\<open>__init__\<close> creates all of them, so
  every \<^verbatim>\<open>hasattr\<close> test of the class is true.
\<close>

datatype attr = Users | Qops | Sops | Aops | Hops | Vops

fun getattr :: "attr \<Rightarrow> channel \<Rightarrow> string list" where
  "getattr Users c = ch_users c"
| "getattr Qops c = qops c"
| "getattr Sops c = sops c"
| "getattr Aops c = aops c"
| "getattr Hops c = hops c"
| "getattr Vops c = vops c"

fun setattr :: "attr \<Rightarrow> string list \<Rightarrow> channel \<Rightarrow> channel" where
  "setattr Users xs c = c\<lparr>ch_users := xs\<rparr>"
| "setattr Qops xs c = c\<lparr>qops := xs\<rparr>"
| "setattr Sops xs c = c\<lparr>sops := xs\<rparr>"
| "setattr Aops xs c = c\<lparr>aops := xs\<rparr>"
| "setattr Hops xs c = c\<lparr>hops := xs\<rparr>"
| "setattr Vops xs c = c\<lparr>vops := xs\<rparr>"

definition member_attrs :: "attr list" where
  "member_attrs = [Users, Qops, Sops, Aops, Hops, Vops]"

fun arg_nick :: "user_arg \<Rightarrow> string" where
  "arg_nick (Str s) = s"
| "arg_nick (Obj u) = u_nick u"

definition isQOP :: "channel \<Rightarrow> user_arg \<Rightarrow> bool" where
  "isQOP c user = (lower (arg_nick user) \<in> set (qops c))"

definition isSOP :: "channel \<Rightarrow> user_arg \<Rightarrow> bool" where
  "isSOP c user = (lower (arg_nick user) \<in> set (sops c))"

definition isAOP :: "channel \<Rightarrow> user_arg \<Rightarrow> bool" where
  "isAOP c user = (lower (arg_nick user) \<in> set (aops c))"

definition isHOP :: "channel \<Rightarrow> user_arg \<Rightarrow> bool" where
  "isHOP c user = (lower (arg_nick user) \<in> set (hops c))"

definition isVOP :: "channel \<Rightarrow> user_arg \<Rightarrow> bool" where
  "isVOP c user = (lower (arg_nick user) \<in> set (vops c))"

abbreviation isOP :: "channel \<Rightarrow> user_arg \<Rightarrow> bool" where
  "isOP \<equiv> isAOP"

abbreviation isVoice :: "channel \<Rightarrow> user_arg \<Rightarrow> bool" where
  "isVoice \<equiv> isVOP"

definition Channel_addUser :: "user_arg \<Rightarrow> channel \<Rightarrow> channel" where
  "Channel_addUser user c =
     (if lower (arg_nick user) \<notin> set (ch_users c)
      then c\<lparr>ch_users := ch_users c @ [lower (arg_nick user)]\<rparr>
      else c)"

text \<open>\<^verbatim>\<open>list.remove\<close> deletes the first occurrence: \<open>remove1\<close>.\<close>

definition Channel_renameUser :: "user_arg \<Rightarrow> string \<Rightarrow> channel \<Rightarrow> channel" where
  "Channel_renameUser user new c =
     fold (\<lambda>a c. if lower (arg_nick user) \<in> set (getattr a c)
                  then setattr a (remove1 (lower (arg_nick user)) (getattr a c) @ [lower new]) c
                  else c)
          member_attrs c"

definition Channel_removeUser :: "user_arg \<Rightarrow> channel \<Rightarrow> channel" where
  "Channel_removeUser user c =
     fold (\<lambda>a c. if lower (arg_nick user) \<in> set (getattr a c)
                  then setattr a (remove1 (lower (arg_nick user)) (getattr a c)) c
                  else c)
          member_attrs c"

definition op_translations :: "(string \<times> attr) list" where
  "op_translations = [(''q'', Qops), (''a'', Sops), (''o'', Aops), (''h'', Hops), (''v'', Vops)]"

definition Channel_setMode :: "bool \<Rightarrow> string \<Rightarrow> string option \<Rightarrow> channel \<Rightarrow> channel" where
  "Channel_setMode added mode arg c =
     (if added then
        (case arg of
           Some a \<Rightarrow>
             (case map_of op_translations mode of
                Some t \<Rightarrow>
                  if lower a \<notin> set (getattr t c) then setattr t (getattr t c @ [lower a]) c
                  else if mode = ''b'' \<and> lower a \<notin> set (bans c)
                  then c\<lparr>bans := bans c @ [lower a]\<rparr>
                  else c
              | None \<Rightarrow>
                  if mode = ''b'' \<and> lower a \<notin> set (bans c)
                  then c\<lparr>bans := bans c @ [lower a]\<rparr>
                  else c)
         | None \<Rightarrow>
             if \<not> str_contains mode (ch_modes c) then c\<lparr>ch_modes := ch_modes c @ mode\<rparr>
             else c)
      else
        (case arg of
           Some a \<Rightarrow>
             (case map_of op_translations mode of
                Some t \<Rightarrow>
                  if lower a \<in> set (getattr t c) then setattr t (remove1 (lower a) (getattr t c)) c
                  else if mode = ''b'' \<and> lower a \<in> set (bans c)
                  then c\<lparr>bans := remove1 (lower a) (bans c)\<rparr>
                  else c
              | None \<Rightarrow>
                  if mode = ''b'' \<and> lower a \<in> set (bans c)
                  then c\<lparr>bans := remove1 (lower a) (bans c)\<rparr>
                  else c)
         | None \<Rightarrow>
             if str_contains mode (ch_modes c) then c\<lparr>ch_modes := str_remove mode (ch_modes c)\<rparr>
             else c))"

section \<open>Session (core.py)\<close>

text \<open>
  \<open>supported_PREFIX\<close> is \<^verbatim>\<open>self.supported.getFeature('PREFIX')\<close> (mode letter to symbol and
  priority), \<open>None\<close> when \<^verbatim>\<open>hasFeature('PREFIX')\<close> is false. \<open>sent\<close> collects the lines
  written at once (\<^verbatim>\<open>whois\<close>) and \<open>scheduled\<close> those handed to \<^verbatim>\<open>reactor.callLater\<close>.
\<close>

record session =
  nickname :: string
  users :: "(string \<times> user) list"
  channels :: "(string \<times> channel) list"
  supported_PREFIX :: "(string \<times> string \<times> nat) list option"
  sent :: "string list"
  scheduled :: "string list"

fun as_User :: "user_arg \<Rightarrow> user" where
  "as_User (Str s) = User_init s"
| "as_User (Obj u) = u"

text \<open>
  \<^verbatim>\<open>addUser\<close> writes \<open>is_self\<close> on the object it is given before it looks the nick up. A
  \<open>User\<close> object passed in is taken to be another object than the registered ones, so
  that this write does not reach the registry; the handlers of the session pass strings.
\<close>

definition addUser :: "session \<Rightarrow> user_arg \<Rightarrow> user \<times> session" where
  "addUser s arg =
     (let user = (as_User arg)\<lparr>is_self := (lower (u_nick (as_User arg)) = lower (nickname s))\<rparr>;
          k = lower (u_nick user)
      in case map_of (users s) k of
           None \<Rightarrow> (user, s\<lparr>users := AList.update k user (users s),
                             sent := sent s @ [''WHOIS '' @ u_nick user]\<rparr>)
         | Some u \<Rightarrow> (u, s))"

definition renameUser :: "session \<Rightarrow> user_arg \<Rightarrow> string \<Rightarrow> (unit, session) res" where
  "renameUser s arg new =
     (let user = as_User arg;
          us1 = AList.update (lower new) user (users s)
      in if map_of us1 (lower (u_nick user)) = None then Raise KeyError (s\<lparr>users := us1\<rparr>)
         else
           (let us2 = AList.delete (lower (u_nick user)) us1
            in case map_of us2 (lower new) of
                 None \<Rightarrow> Raise KeyError (s\<lparr>users := us2\<rparr>)
               | Some u \<Rightarrow>
                   Return () (s\<lparr>users := AList.update (lower new) (u\<lparr>u_nick := new\<rparr>) us2\<rparr>)))"

definition removeUser :: "session \<Rightarrow> user_arg \<Rightarrow> user \<times> session" where
  "removeUser s arg =
     (let user = as_User arg; k = lower (u_nick user)
      in case map_of (users s) k of
           Some u \<Rightarrow> (u, s\<lparr>users := AList.delete k (users s)\<rparr>)
         | None \<Rightarrow> (user, s))"

definition inChannel :: "session \<Rightarrow> string \<Rightarrow> bool" where
  "inChannel s channel = (map_of (channels s) (lower channel) \<noteq> None)"

definition joined :: "session \<Rightarrow> string \<Rightarrow> session" where
  "joined s channel =
     (let s1 = (if map_of (channels s) (lower channel) = None
                then s\<lparr>channels := AList.update (lower channel) (Channel_init channel) (channels s)\<rparr>
                else s)
      in s1\<lparr>scheduled := scheduled s1 @ [''MODE '' @ channel, ''MODE '' @ channel @ '' b'']\<rparr>)"

definition left :: "session \<Rightarrow> string \<Rightarrow> session" where
  "left s channel =
     (if map_of (channels s) (lower channel) \<noteq> None
      then s\<lparr>channels := AList.delete (lower channel) (channels s)\<rparr>
      else s)"

definition kickedFrom :: "session \<Rightarrow> string \<Rightarrow> string \<Rightarrow> string \<Rightarrow> session" where
  "kickedFrom s channel kicker message =
     (if map_of (channels s) (lower channel) \<noteq> None
      then s\<lparr>channels := AList.delete (lower channel) (channels s)\<rparr>
      else s)"

definition userJoined :: "session \<Rightarrow> string \<Rightarrow> string \<Rightarrow> (unit, session) res" where
  "userJoined s user channel =
     (case addUser s (Str user) of (u, s1) \<Rightarrow>
        (case map_of (channels s1) (lower channel) of
           None \<Rightarrow> Raise KeyError s1
         | Some c \<Rightarrow>
             Return () (s1\<lparr>channels :=
               AList.update (lower channel) (Channel_addUser (Obj u) c) (channels s1)\<rparr>)))"

text \<open>
  \<^verbatim>\<open>True not in map(...)\<close> consumes the iterator: it is true when no tracked channel has
  the nick in its membership.
\<close>

definition in_some_channel :: "session \<Rightarrow> string \<Rightarrow> bool" where
  "in_some_channel s k = list_ex (\<lambda>(_, c). k \<in> set (ch_users c)) (channels s)"

definition userLeft :: "session \<Rightarrow> string \<Rightarrow> string \<Rightarrow> (unit, session) res" where
  "userLeft s user channel =
     (case map_of (users s) (lower (u_nick (User_init user))) of
        None \<Rightarrow> Raise KeyError s
      | Some u \<Rightarrow>
          (case map_of (channels s) (lower channel) of
             None \<Rightarrow> Raise KeyError s
           | Some c \<Rightarrow>
               (let s1 = s\<lparr>channels :=
                           AList.update (lower channel) (Channel_removeUser (Obj u) c) (channels s)\<rparr>
                in if \<not> in_some_channel s1 (lower (u_nick u))
                   then Return () (snd (removeUser s1 (Obj u)))
                   else Return () s1)))"

text \<open>
  \<^verbatim>\<open>userQuit\<close> ends with \<^verbatim>\<open>map(lambda channel: channel.removeUser(user), ...)\<close> as a
  statement. The iterator it builds is never consumed, so no \<^verbatim>\<open>Channel.removeUser\<close> call
  runs: the registry entry is popped and the channels stay as they were.
\<close>

definition userQuit :: "session \<Rightarrow> string \<Rightarrow> string \<Rightarrow> (unit, session) res" where
  "userQuit s user message = (case removeUser s (Str user) of (u, s1) \<Rightarrow> Return () s1)"

text \<open>
  \<^verbatim>\<open>userRenamed\<close> ends the same way, with
  \<^verbatim>\<open>map(lambda channel: channel.renameUser(user), ...)\<close>: the iterator is dropped
  unconsumed, and no channel is touched.
\<close>

definition userRenamed :: "session \<Rightarrow> string \<Rightarrow> string \<Rightarrow> (unit, session) res" where
  "userRenamed s old new =
     (case map_of (users s) (lower old) of
        None \<Rightarrow> Raise KeyError s
      | Some u \<Rightarrow> renameUser s (Obj u) new)"

definition userKicked :: "session \<Rightarrow> string \<Rightarrow> string \<Rightarrow> string \<Rightarrow> string \<Rightarrow> (unit, session) res" where
  "userKicked s user channel kicker message =
     (case map_of (users s) (lower (u_nick (User_init user))) of
        None \<Rightarrow> Raise KeyError s
      | Some u \<Rightarrow>
          (case map_of (channels s) (lower channel) of
             None \<Rightarrow> Raise KeyError s
           | Some c \<Rightarrow>
               (let s1 = s\<lparr>channels :=
                           AList.update (lower channel) (Channel_removeUser (Obj u) c) (channels s)\<rparr>
                in if \<not> in_some_channel s1 (lower (u_nick u))
                   then Return () (snd (removeUser s1 (Obj u)))
                   else Return () s1)))"

text \<open>
  The loops of \<^verbatim>\<open>modeChanged\<close>: \<^verbatim>\<open>for x in range(len(modes))\<close> reads \<^verbatim>\<open>args[x]\<close>, which
  raises \<^verbatim>\<open>IndexError\<close> when \<open>args\<close> is shorter than \<open>modes\<close>; the modes applied before stay.
\<close>

fun user_modes_loop :: "bool \<Rightarrow> string \<Rightarrow> string option list \<Rightarrow> user \<Rightarrow> user \<times> py_error option"
  where
  "user_modes_loop added [] args u = (u, None)"
| "user_modes_loop added (m # ms) [] u = (u, Some IndexError)"
| "user_modes_loop added (m # ms) (a # as) u =
     user_modes_loop added ms as (User_setMode added [m] a u)"

fun channel_modes_loop ::
  "bool \<Rightarrow> string \<Rightarrow> string option list \<Rightarrow> channel \<Rightarrow> channel \<times> py_error option"
  where
  "channel_modes_loop added [] args c = (c, None)"
| "channel_modes_loop added (m # ms) [] c = (c, Some IndexError)"
| "channel_modes_loop added (m # ms) (a # as) c =
     channel_modes_loop added ms as (Channel_setMode added [m] a c)"

definition modeChanged ::
  "session \<Rightarrow> string option \<Rightarrow> string \<Rightarrow> bool \<Rightarrow> string \<Rightarrow> string option list \<Rightarrow> (unit, session) res"
  where
  "modeChanged s user channel added modes args =
     (if \<not> startswith channel ''#'' then
        (case map_of (users s) (lower channel) of
           None \<Rightarrow> Return () s
         | Some u \<Rightarrow>
             (case user_modes_loop added modes args u of (u', err) \<Rightarrow>
                (let s' = s\<lparr>users := AList.update (lower channel) u' (users s)\<rparr>
                 in case err of None \<Rightarrow> Return () s' | Some e \<Rightarrow> Raise e s')))
      else
        (case map_of (channels s) (lower channel) of
           None \<Rightarrow> Return () s
         | Some c \<Rightarrow>
             (case channel_modes_loop added modes args c of (c', err) \<Rightarrow>
                (let s' = s\<lparr>channels := AList.update (lower channel) c' (channels s)\<rparr>
                 in case err of None \<Rightarrow> Return () s' | Some e \<Rightarrow> Raise e s'))))"

text \<open>
  The symbol table of \<^verbatim>\<open>irc_RPL_NAMREPLY\<close>. \<^verbatim>\<open>dict(pairs)\<close> keeps the last value of a
  repeated key, hence the \<open>rev\<close>.
\<close>

definition mode_translation :: "session \<Rightarrow> (string \<times> string) list" where
  "mode_translation s =
     (case supported_PREFIX s of
        None \<Rightarrow> [(''~'', ''q''), (''&'', ''a''), (''@'', ''o''), (''%'', ''h''), (''+'', ''v'')]
      | Some items \<Rightarrow> rev (map (\<lambda>(m, sym, p). (sym, m)) items))"

text \<open>
  The loop over \<^verbatim>\<open>nicks.split()\<close>, with the accumulators \<open>modes\<close> and \<open>args\<close>. No element of
  the split is empty, so \<^verbatim>\<open>nick[0]\<close> is defined; the equation for \<open>[]\<close> stands for the
  \<^verbatim>\<open>IndexError\<close> it would raise.
\<close>

fun names_loop ::
  "string \<Rightarrow> string list \<Rightarrow> string \<Rightarrow> string list \<Rightarrow> session
     \<Rightarrow> (string \<times> string list, session) res"
  where
  "names_loop channel [] modes args s = Return (modes, args) s"
| "names_loop channel ([] # nicks) modes args s = Raise IndexError s"
| "names_loop channel ((c # cs) # nicks) modes args s =
     (let (nick, modes', args') =
            (case map_of (mode_translation s) [c] of
               Some m \<Rightarrow> (cs, modes @ m, args @ [cs])
             | None \<Rightarrow> (c # cs, modes, args))
      in case addUser s (Str nick) of (u, s1) \<Rightarrow>
           (case map_of (channels s1) (lower channel) of
              None \<Rightarrow> Raise KeyError s1
            | Some ch \<Rightarrow>
                names_loop channel nicks modes' args'
                  (s1\<lparr>channels :=
                     AList.update (lower channel) (Channel_addUser (Str nick) ch) (channels s1)\<rparr>)))"

definition irc_RPL_NAMREPLY :: "session \<Rightarrow> string \<Rightarrow> string list \<Rightarrow> (unit, session) res" where
  "irc_RPL_NAMREPLY s pfx params =
     (if length params < 2 then Raise IndexError s
      else
        (let channel = params ! (length params - 2); nicks = last params
         in case names_loop channel (split_ws nicks) [] [] s of
              Raise e s1 \<Rightarrow> Raise e s1
            | Diverge \<Rightarrow> Diverge
            | Return (modes, args) s1 \<Rightarrow> modeChanged s1 None channel True modes (map Some args)))"

section \<open>Event registry (plugin.py, EventManager)\<close>

datatype event =
    RAW | INVITE | PRIVMSG | NOTICE | NICK | MODE | TOPIC | JOIN | PART | KICK | QUIT
  | STOP | STOP_ALL

text \<open>
  The objects that pass through the managers uninterpreted. Equality is Python's \<^verbatim>\<open>==\<close>:
  by value on strings, by identity on enum members and on instances of classes without
  \<^verbatim>\<open>__eq__\<close> such as \<^verbatim>\<open>User\<close> and \<^verbatim>\<open>Channel\<close> (\<open>PObj n\<close> is the object with
  identity \<open>n\<close>).
\<close>

datatype pyobj = PNone | PStr string | PEvent event | PObj nat

text \<open>
  What one call of a plugin-supplied callable does, as far as the firing loops can tell.
  \<open>RaisesAssertionError d\<close>: \<open>d\<close> says whether the last frame of the traceback is in
  \<^verbatim>\<open>defer.py\<close>. The body of a handler is plugin code; its effect on the managers is not
  part of the model.
\<close>

datatype behaviour =
    Returns pyobj
  | RaisesEventRejectedMessage
  | RaisesCommandNeedsArgsError
  | RaisesAssertionError bool
  | RaisesOther

text \<open>
  A callable with the attributes the managers read: \<^verbatim>\<open>callable\<close>, \<^verbatim>\<open>inspect.ismethod\<close>,
  the \<^verbatim>\<open>args\<close> and \<^verbatim>\<open>varargs\<close> of \<^verbatim>\<open>inspect.getargspec\<close>, and the tags set by the
  decorators (\<open>None\<close> when \<^verbatim>\<open>hasattr\<close> is false). \<open>h_regex\<close> is the pattern, given by what
  \<^verbatim>\<open>re.search\<close> answers on a message. \<open>h_name\<close> stands for the identity of the callable.
\<close>

record handler =
  h_name :: string
  is_callable :: bool
  ismethod :: bool
  arglen :: nat
  varargs :: bool
  h_commands :: "string list option"
  h_regex :: "(string \<Rightarrow> bool) option"
  h_events :: "pyobj list option"
  run :: "pyobj list \<Rightarrow> behaviour"

text \<open>
  \<open>pending_ids\<close> are the values the coming calls of \<^verbatim>\<open>_generate_id\<close> return, in order
  (the random source); \<open>em_bot\<close> is \<^verbatim>\<open>self.bot\<close>.
\<close>

record event_manager =
  em_bot :: pyobj
  events :: "(pyobj \<times> int) list"
  callbacks :: "(pyobj \<times> (string \<times> handler) list) list"
  pending_ids :: "string list"

definition EventManager_init :: "pyobj \<Rightarrow> string list \<Rightarrow> event_manager" where
  "EventManager_init b ids = \<lparr>em_bot = b, events = [], callbacks = [], pending_ids = ids\<rparr>"

text \<open>\<^verbatim>\<open>type(name) in [str, Event]\<close>; \<open>arglen\<close> is an \<open>int\<close> by its type here.\<close>

fun is_event_name :: "pyobj \<Rightarrow> bool" where
  "is_event_name (PStr _) = True"
| "is_event_name (PEvent _) = True"
| "is_event_name _ = False"

definition register :: "event_manager \<Rightarrow> pyobj \<Rightarrow> int \<Rightarrow> (unit, event_manager) res" where
  "register em name n =
     (if map_of (events em) name \<noteq> None then Raise EventAlreadyExistsError em
      else if \<not> is_event_name name then Raise TypeError em
      else Return ()
             (em\<lparr>events := AList.update name n (events em),
                 callbacks := (if map_of (callbacks em) name = None
                               then AList.update name [] (callbacks em)
                               else callbacks em)\<rparr>))"

definition unregister :: "event_manager \<Rightarrow> pyobj \<Rightarrow> (unit, event_manager) res" where
  "unregister em name =
     (if map_of (events em) name = None then Raise EventDoesNotExistError em
      else if map_of (callbacks em) name = None
      then Raise KeyError (em\<lparr>events := AList.delete name (events em)\<rparr>)
      else Return () (em\<lparr>events := AList.delete name (events em),
                          callbacks := AList.delete name (callbacks em)\<rparr>))"

text \<open>
  \<^verbatim>\<open>_add_callback\<close>: identifiers are drawn until one is not a key of
  \<^verbatim>\<open>self.callbacks[name]\<close>. \<open>fresh_id\<close> is that loop over the pending draws; it has no
  answer when every pending draw is taken.
\<close>

fun fresh_id :: "string list \<Rightarrow> string list \<Rightarrow> (string \<times> string list) option" where
  "fresh_id taken [] = None"
| "fresh_id taken (i # ids) = (if i \<in> set taken then fresh_id taken ids else Some (i, ids))"

definition callbacks_of :: "event_manager \<Rightarrow> pyobj \<Rightarrow> (string \<times> handler) list" where
  "callbacks_of em name = (case map_of (callbacks em) name of None \<Rightarrow> [] | Some d \<Rightarrow> d)"

definition add_callback ::
  "event_manager \<Rightarrow> pyobj \<Rightarrow> handler \<Rightarrow> (string, event_manager) res" where
  "add_callback em name callback =
     (case fresh_id (map fst (callbacks_of em name)) (pending_ids em) of
        None \<Rightarrow> Diverge
      | Some (i, rest) \<Rightarrow>
          Return i
            (em\<lparr>callbacks :=
                   AList.update name (AList.update i callback (callbacks_of em name)) (callbacks em),
                pending_ids := rest\<rparr>))"

definition register_callback ::
  "event_manager \<Rightarrow> pyobj \<Rightarrow> handler \<Rightarrow> (string, event_manager) res" where
  "register_callback em name callback =
     (if \<not> is_callable callback then Raise EventCallbackError em
      else
        (case map_of (events em) name of
           None \<Rightarrow> add_callback em name callback
         | Some narglen \<Rightarrow>
             if int (arglen callback) \<noteq> narglen \<and> \<not> varargs callback
             then Raise EventCallbackError em
             else add_callback em name callback))"

definition unregister_callback :: "event_manager \<Rightarrow> pyobj \<Rightarrow> string \<Rightarrow> event_manager" where
  "unregister_callback em name callback_id =
     (case map_of (callbacks em) name of
        None \<Rightarrow> em
      | Some cbs \<Rightarrow>
          if map_of cbs callback_id = None then em
          else em\<lparr>callbacks := AList.update name (AList.delete callback_id cbs) (callbacks em)\<rparr>)"



section \<open>Plugin engine (plugin.py, PluginManager)\<close>

text \<open>
  The world outside the repository: a plugin's teardown hook (the length of its argument
  list and whether the call raises), the handler instance a module's \<^verbatim>\<open>setup\<close> returns
  (its methods in the order of \<^verbatim>\<open>inspect.getmembers\<close>), a module (its \<^verbatim>\<open>setup\<close> function
  when it has one: the number of its arguments and the instance it returns, \<open>None\<close> when
  the call raises), and the importer (\<open>None\<close> when the import raises).
\<close>

record close_hook =
  close_arglen :: nat
  close_raises :: bool

record plugin_instance =
  i_methods :: "handler list"
  i_close :: "close_hook option"

record setup_fn =
  setup_arglen :: nat
  setup_result :: "plugin_instance option"

record pmodule =
  mod_name :: string
  mod_setup :: "setup_fn option"

record importer =
  import_module :: "string \<Rightarrow> pmodule option"
  reload :: "pmodule \<Rightarrow> pmodule option"

datatype module_arg = ModName string | ModObj pmodule

record plugin_unit =
  p_name :: string
  p_module :: pmodule
  p_instance :: plugin_instance
  p_commands :: "handler list"
  p_callbacks :: "handler list"
  p_callback_ids :: "(pyobj \<times> string list) list"
  p_blacklist :: "pyobj list"

text \<open>The two managers and the counter \<^verbatim>\<open>bot.reloads\<close> they share through \<^verbatim>\<open>self.bot\<close>.\<close>

record bot_state =
  plugins :: "(string \<times> plugin_unit) list"
  event_manager :: event_manager
  reloads :: nat

definition load_module :: "importer \<Rightarrow> module_arg \<Rightarrow> pmodule option" where
  "load_module imp m =
     (case m of ModObj x \<Rightarrow> reload imp x | ModName n \<Rightarrow> import_module imp (''plugins.'' @ n))"

definition load_plugin :: "pmodule \<Rightarrow> py_error + plugin_instance" where
  "load_plugin m =
     (case mod_setup m of
        None \<Rightarrow> Inl PluginError
      | Some f \<Rightarrow>
          if setup_arglen f = 0 \<or> setup_arglen f = 1
          then (case setup_result f of None \<Rightarrow> Inl OtherException | Some i \<Rightarrow> Inr i)
          else Inl PluginError)"

definition append_id :: "pyobj \<Rightarrow> string \<Rightarrow> (pyobj \<times> string list) list \<Rightarrow> (pyobj \<times> string list) list"
  where
  "append_id name i ids =
     AList.update name ((case map_of ids name of None \<Rightarrow> [] | Some l \<Rightarrow> l) @ [i]) ids"

fun register_events ::
  "event_manager \<Rightarrow> handler \<Rightarrow> pyobj list \<Rightarrow> (pyobj \<times> string list) list
     \<Rightarrow> ((pyobj \<times> string list) list, event_manager) res"
  where
  "register_events em callback [] ids = Return ids em"
| "register_events em callback (name # names) ids =
     (case register_callback em name callback of
        Return i em' \<Rightarrow> register_events em' callback names (append_id name i ids)
      | Raise e em' \<Rightarrow> Raise e em'
      | Diverge \<Rightarrow> Diverge)"

fun register_callbacks_loop ::
  "event_manager \<Rightarrow> handler list \<Rightarrow> (pyobj \<times> string list) list
     \<Rightarrow> ((pyobj \<times> string list) list, event_manager) res"
  where
  "register_callbacks_loop em [] ids = Return ids em"
| "register_callbacks_loop em (callback # cbs) ids =
     (case h_events callback of
        None \<Rightarrow> Raise AttributeError em
      | Some names \<Rightarrow>
          (case register_events em callback names ids of
             Return ids' em' \<Rightarrow> register_callbacks_loop em' cbs ids'
           | Raise e em' \<Rightarrow> Raise e em'
           | Diverge \<Rightarrow> Diverge))"

definition register_plugin_callbacks ::
  "event_manager \<Rightarrow> handler list \<Rightarrow> ((pyobj \<times> string list) list, event_manager) res" where
  "register_plugin_callbacks em cbs = register_callbacks_loop em cbs []"

text \<open>
  The inner loop of \<^verbatim>\<open>_unregister_plugin_callbacks\<close> iterates over a list and removes
  the current element from it in the body. The list iterator keeps an index \<open>i\<close>, reads
  the element at \<open>i\<close> of the list as it is now, and stops when \<open>i\<close> reaches its length.
\<close>

function unregister_ids ::
  "event_manager \<Rightarrow> pyobj \<Rightarrow> string list \<Rightarrow> nat \<Rightarrow> event_manager \<times> string list" where
  "unregister_ids em name ids i =
     (if i < length ids
      then unregister_ids (unregister_callback em name (ids ! i)) name (remove1 (ids ! i) ids) (Suc i)
      else (em, ids))"
  by pat_completeness auto
termination
  by (relation "measure (\<lambda>(em, name, ids, i). length ids - i)") (auto simp: length_remove1)

fun unregister_names ::
  "event_manager \<Rightarrow> (pyobj \<times> string list) list \<Rightarrow> event_manager \<times> (pyobj \<times> string list) list"
  where
  "unregister_names em [] = (em, [])"
| "unregister_names em ((name, ids) # rest) =
     (case unregister_ids em name ids 0 of (em1, ids') \<Rightarrow>
        (case unregister_names em1 rest of (em2, rest') \<Rightarrow> (em2, (name, ids') # rest')))"

definition unregister_plugin_callbacks :: "bot_state \<Rightarrow> string \<Rightarrow> (unit, bot_state) res" where
  "unregister_plugin_callbacks b plugin =
     (case map_of (plugins b) plugin of
        None \<Rightarrow> Raise KeyError b
      | Some u \<Rightarrow>
          (case unregister_names (event_manager b) (p_callback_ids u) of (em', ids') \<Rightarrow>
             Return () (b\<lparr>event_manager := em',
                          plugins := AList.update plugin (u\<lparr>p_callback_ids := ids'\<rparr>) (plugins b)\<rparr>)))"

text \<open>\<^verbatim>\<open>_unload_plugin\<close>: the error it raises, if any.\<close>

definition unload_plugin :: "bot_state \<Rightarrow> string \<Rightarrow> py_error option" where
  "unload_plugin b plugin =
     (case map_of (plugins b) plugin of
        None \<Rightarrow> Some KeyError
      | Some u \<Rightarrow>
          (case i_close (p_instance u) of
             None \<Rightarrow> None
           | Some h \<Rightarrow>
               if close_arglen h = 1 \<or> close_arglen h = 2
               then (if close_raises h then Some OtherException else None)
               else Some PluginError))"

text \<open>\<^verbatim>\<open>hasattr(method, 'commands')\<close>, and the same for \<^verbatim>\<open>regex\<close> and \<^verbatim>\<open>events\<close>.\<close>

definition has_commands :: "handler \<Rightarrow> bool" where
  "has_commands m = (h_commands m \<noteq> None)"

definition has_regex :: "handler \<Rightarrow> bool" where
  "has_regex m = (h_regex m \<noteq> None)"

definition has_events :: "handler \<Rightarrow> bool" where
  "has_events m = (h_events m \<noteq> None)"

definition get_plugin_commands :: "plugin_instance \<Rightarrow> handler list" where
  "get_plugin_commands i =
     filter (\<lambda>m. is_callable m \<and> (has_commands m \<or> has_regex m)) (i_methods i)"

definition get_plugin_callbacks :: "plugin_instance \<Rightarrow> handler list" where
  "get_plugin_callbacks i = filter (\<lambda>m. is_callable m \<and> has_events m) (i_methods i)"

text \<open>
  \<^verbatim>\<open>itercommands\<close>, as the list of what the generator yields: the units in the order of
  \<^verbatim>\<open>self.plugins.items()\<close>.
\<close>

definition itercommands :: "bot_state \<Rightarrow> pyobj \<Rightarrow> handler list" where
  "itercommands b channel =
     concat (map (\<lambda>(name, plugin).
                    if channel \<noteq> PNone \<and> channel \<in> set (p_blacklist plugin) then []
                    else p_commands plugin)
                 (plugins b))"

text \<open>
  \<^verbatim>\<open>unload\<close>, with the list \<open>failed\<close> of the identifiers that failed so far. For an
  identifier that is not loaded the source calls \<^verbatim>\<open>log.err()\<close> while no exception is
  being handled; twisted builds the failure it logs from the current exception and raises
  \<^verbatim>\<open>NoCurrentExceptionError\<close> when there is none, so the call ends there.
\<close>

fun unload_loop ::
  "bot_state \<Rightarrow> string list \<Rightarrow> string list \<Rightarrow> (string list, bot_state) res" where
  "unload_loop b [] failed = Return failed b"
| "unload_loop b (plugin # ps) failed =
     (if map_of (plugins b) plugin = None then Raise NoCurrentExceptionError b
      else
        (let b1 = (case unregister_plugin_callbacks b plugin of
                     Return _ b' \<Rightarrow> b' | Raise _ b' \<Rightarrow> b' | Diverge \<Rightarrow> b);
             failed1 = (case unload_plugin b1 plugin of
                          None \<Rightarrow> failed | Some e \<Rightarrow> failed @ [plugin])
         in unload_loop (b1\<lparr>plugins := AList.delete plugin (plugins b1)\<rparr>) ps failed1))"

definition unload :: "bot_state \<Rightarrow> string list \<Rightarrow> (string list, bot_state) res" where
  "unload b ps = unload_loop b ps []"

text \<open>
  The statement \<^verbatim>\<open>if plugin in self.plugins: self.unload(plugin)\<close> of \<^verbatim>\<open>load\<close>; the list
  \<^verbatim>\<open>unload\<close> returns is dropped there.
\<close>

definition unload_present :: "bot_state \<Rightarrow> string \<Rightarrow> (string list, bot_state) res" where
  "unload_present b plugin =
     (if map_of (plugins b) plugin \<noteq> None then unload b [plugin] else Return [] b)"

text \<open>
  \<^verbatim>\<open>load\<close>, one identifier after the other. \<open>cids\<close> is the local variable
  \<^verbatim>\<open>callback_ids\<close>: unbound (\<open>None\<close>) until a registration of this call has succeeded, and
  kept from one identifier to the next. The handler of a failed registration has no
  \<^verbatim>\<open>continue\<close>, so the code after it runs in both cases. The result of the teardown
  attempt at the start of a reload is dropped by the source.
\<close>

fun load_loop ::
  "importer \<Rightarrow> bot_state \<Rightarrow> string list \<Rightarrow> (pyobj \<times> string list) list option \<Rightarrow> string list
     \<Rightarrow> (string list, bot_state) res"
  where
  "load_loop imp b [] cids failed = Return failed b"
| "load_loop imp b (plugin # ps) cids failed =
     (let reload_flag = (map_of (plugins b) plugin \<noteq> None);
          name = (case map_of (plugins b) plugin of
                    Some u \<Rightarrow> ModObj (p_module u)
                  | None \<Rightarrow> ModName plugin)
      in case load_module imp name of
           None \<Rightarrow> load_loop imp b ps cids (failed @ [plugin])
         | Some m \<Rightarrow>
             (case load_plugin m of
                Inl e \<Rightarrow> load_loop imp b ps cids (failed @ [plugin])
              | Inr inst \<Rightarrow>
                  (case register_plugin_callbacks (event_manager b) (get_plugin_callbacks inst) of
                     Diverge \<Rightarrow> Diverge
                   | Return ids em1 \<Rightarrow>
                       (case unload_present (b\<lparr>event_manager := em1\<rparr>) plugin of
                          Diverge \<Rightarrow> Diverge
                        | Raise e b2 \<Rightarrow> Raise e b2
                        | Return _ b2 \<Rightarrow>
                            load_loop imp
                              (b2\<lparr>plugins :=
                                    AList.update plugin
                                      \<lparr>p_name = plugin, p_module = m, p_instance = inst,
                                       p_commands = get_plugin_commands inst,
                                       p_callbacks = get_plugin_callbacks inst,
                                       p_callback_ids = ids, p_blacklist = []\<rparr>
                                      (plugins b2),
                                  reloads := (if reload_flag then reloads b2 + 1 else reloads b2)\<rparr>)
                              ps (Some ids) failed)
                   | Raise e em1 \<Rightarrow>
                       (case unload_present (b\<lparr>event_manager := em1\<rparr>) plugin of
                          Diverge \<Rightarrow> Diverge
                        | Raise e' b2 \<Rightarrow> Raise e' b2
                        | Return _ b2 \<Rightarrow>
                            (case cids of
                               None \<Rightarrow> Raise UnboundLocalError b2
                             | Some ids \<Rightarrow>
                                 load_loop imp
                                   (b2\<lparr>plugins :=
                                         AList.update plugin
                                           \<lparr>p_name = plugin, p_module = m, p_instance = inst,
                                            p_commands = get_plugin_commands inst,
                                            p_callbacks = get_plugin_callbacks inst,
                                            p_callback_ids = ids, p_blacklist = []\<rparr>
                                           (plugins b2),
                                       reloads :=
                                         (if reload_flag then reloads b2 + 1 else reloads b2)\<rparr>)
                                   ps cids (failed @ [plugin]))))))"

definition load :: "importer \<Rightarrow> bot_state \<Rightarrow> string list \<Rightarrow> (string list, bot_state) res" where
  "load imp b ps = load_loop imp b ps None []"

definition blacklist :: "bot_state \<Rightarrow> string \<Rightarrow> pyobj list \<Rightarrow> bool \<times> bot_state" where
  "blacklist b plugin chans =
     (case map_of (plugins b) plugin of
        None \<Rightarrow> (False, b)
      | Some u \<Rightarrow>
          (True, b\<lparr>plugins :=
                     AList.update plugin (u\<lparr>p_blacklist := p_blacklist u @ chans\<rparr>) (plugins b)\<rparr>))"

text \<open>
  The loop of \<^verbatim>\<open>fire_command\<close> over the commands \<^verbatim>\<open>itercommands\<close> yields, with the
  running \<open>result\<close> and the \<open>h_name\<close> of the handlers invoked so far.
\<close>

fun command_loop ::
  "pyobj \<Rightarrow> string \<Rightarrow> string \<Rightarrow> pyobj \<Rightarrow> pyobj \<Rightarrow> string \<Rightarrow> handler list \<Rightarrow> pyobj
     \<Rightarrow> string list \<Rightarrow> (py_error + pyobj) \<times> string list"
  where
  "command_loop b cmd params user channel message [] result trace = (Inr result, trace)"
| "command_loop b cmd params user channel message (command # rest) result trace =
     (if (case h_commands command of Some cs \<Rightarrow> cmd \<in> set cs | None \<Rightarrow> False) then
        (case run command
                ((if ismethod command then [] else [b]) @ [PStr cmd, user, channel, PStr params]) of
           Returns v \<Rightarrow>
             if v = PEvent STOP_ALL then (Inr v, trace @ [h_name command])
             else command_loop b cmd params user channel message rest v (trace @ [h_name command])
         | RaisesAssertionError in_defer \<Rightarrow>
             if in_defer
             then command_loop b cmd params user channel message rest result
                    (trace @ [h_name command])
             else (Inl TypeError, trace @ [h_name command])
         | _ \<Rightarrow>
             command_loop b cmd params user channel message rest result (trace @ [h_name command]))
      else if (case h_regex command of Some matches \<Rightarrow> matches message | None \<Rightarrow> False) then
        (case run command
                ((if ismethod command then [] else [b]) @ [user, channel, PStr message]) of
           Returns v \<Rightarrow>
             if v = PEvent STOP_ALL then (Inr v, trace @ [h_name command])
             else command_loop b cmd params user channel message rest v (trace @ [h_name command])
         | RaisesAssertionError in_defer \<Rightarrow>
             if in_defer
             then command_loop b cmd params user channel message rest result
                    (trace @ [h_name command])
             else (Inl TypeError, trace @ [h_name command])
         | _ \<Rightarrow>
             command_loop b cmd params user channel message rest result (trace @ [h_name command]))
      else command_loop b cmd params user channel message rest result trace)"

definition fire_command ::
  "bot_state \<Rightarrow> pyobj \<Rightarrow> pyobj \<Rightarrow> string \<Rightarrow> (py_error + pyobj) \<times> string list" where
  "fire_command b user channel message =
     (case str_partition CHR '' '' message of (cmd, _, params) \<Rightarrow>
        command_loop (em_bot (event_manager b)) cmd params user channel message
          (itercommands b channel) PNone [])"

section \<open>Notions used to state the properties\<close>

text \<open>The nick is in the membership of a tracked channel other than \<open>channel\<close>.\<close>

definition in_other_channel :: "session \<Rightarrow> string \<Rightarrow> string \<Rightarrow> bool" where
  "in_other_channel s channel k =
     list_ex (\<lambda>(c, x). c \<noteq> channel \<and> k \<in> set (ch_users x)) (channels s)"




text \<open>
  The argument list \<^verbatim>\<open>fire_command\<close> passes to a handler, \<open>None\<close> when neither its
  command tokens nor its pattern match.
\<close>

definition handler_call ::
  "pyobj \<Rightarrow> string \<Rightarrow> string \<Rightarrow> pyobj \<Rightarrow> pyobj \<Rightarrow> string \<Rightarrow> handler \<Rightarrow> pyobj list option"
  where
  "handler_call b cmd params user channel message command =
     (if (case h_commands command of Some cs \<Rightarrow> cmd \<in> set cs | None \<Rightarrow> False)
      then Some ((if ismethod command then [] else [b]) @ [PStr cmd, user, channel, PStr params])
      else if (case h_regex command of Some matches \<Rightarrow> matches message | None \<Rightarrow> False)
      then Some ((if ismethod command then [] else [b]) @ [user, channel, PStr message])
      else None)"

text \<open>
  The iteration as the specification words it: the loaded units sorted by identifier.
  It is compared with \<open>itercommands\<close> below.
\<close>

definition itercommands_sorted :: "bot_state \<Rightarrow> pyobj \<Rightarrow> handler list" where
  "itercommands_sorted b channel = itercommands (b\<lparr>plugins := sort_key fst (plugins b)\<rparr>) channel"

section \<open>Concrete sessions and plugins\<close>

text \<open>
  The session after \<^verbatim>\<open>signedOn\<close>: the tables are empty, and as long as the server
  advertises no prefix table of its own twisted's preset one is in force, parsed from
  \<^verbatim>\<open>(ovh)@+%\<close>. Then a session whose \<^verbatim>\<open>PREFIX\<close> feature is absent, so that the
  fallback table of \<^verbatim>\<open>irc_RPL_NAMREPLY\<close> is used, and sessions in which the bot and
  alice have joined channels.
\<close>

definition session0 :: session where
  "session0 = \<lparr>nickname = ''ForkingDongles'', users = [], channels = [],
     supported_PREFIX = Some [(''o'', ''@'', 0), (''v'', ''+'', 1), (''h'', ''%'', 2)],
     sent = [], scheduled = []\<rparr>"

definition session_no_prefix :: session where
  "session_no_prefix = session0\<lparr>supported_PREFIX := None\<rparr>"

text \<open>
  carol has been made an operator of \<open>#test\<close> by a mode change before the name-list
  reply arrives.
\<close>

definition carol_is_op :: session where
  "carol_is_op =
     (case modeChanged (joined session0 ''#test'') (Some ''chanserv!s@services'') ''#test''
             True ''o'' [Some ''carol''] of
        Return _ s \<Rightarrow> s | Raise _ s \<Rightarrow> s | Diverge \<Rightarrow> session0)"

text \<open>The channel \<open>#test\<close> and the session after the name-list reply has been processed there.\<close>

definition test_after_names :: channel where
  "test_after_names =
     \<lparr>ch_name = ''#test'', ch_users = [''alice'', ''bob'', ''carol''], ch_modes = [],
      qops = [], sops = [], aops = [''carol'', ''alice''], hops = [], vops = [''bob''],
      bans = [], isUser = False\<rparr>"

definition carol_after_names :: session where
  "carol_after_names =
     carol_is_op
       \<lparr>users := [(''alice'', User_init ''alice''), (''bob'', User_init ''bob''),
                  (''carol'', User_init ''carol'')],
        channels := [(''#test'', test_after_names)],
        sent := [''WHOIS alice'', ''WHOIS bob'', ''WHOIS carol'']\<rparr>"

definition alice_in_test :: session where
  "alice_in_test =
     (case userJoined (joined session0 ''#test'') ''alice'' ''#test'' of
        Return _ s \<Rightarrow> s | Raise _ s \<Rightarrow> s | Diverge \<Rightarrow> session0)"

definition alice_in_two :: session where
  "alice_in_two =
     (case userJoined (joined alice_in_test ''#dev'') ''alice'' ''#dev'' of
        Return _ s \<Rightarrow> s | Raise _ s \<Rightarrow> s | Diverge \<Rightarrow> session0)"

text \<open>
  A method under the \<^verbatim>\<open>event\<close> decorator (the wrapper takes \<^verbatim>\<open>*args, **kwargs\<close>), a
  method tagged by hand that keeps its five fixed parameters, and a method under the
  \<^verbatim>\<open>command\<close> decorator. Each returns or raises the same on every call.
\<close>

definition event_callback :: "string \<Rightarrow> pyobj list \<Rightarrow> behaviour \<Rightarrow> handler" where
  "event_callback n evs r =
     \<lparr>h_name = n, is_callable = True, ismethod = True, arglen = 0, varargs = True,
      h_commands = None, h_regex = None, h_events = Some evs, run = (\<lambda>_. r)\<rparr>"

definition fixed_callback :: "string \<Rightarrow> pyobj list \<Rightarrow> handler" where
  "fixed_callback n evs =
     \<lparr>h_name = n, is_callable = True, ismethod = True, arglen = 5, varargs = False,
      h_commands = None, h_regex = None, h_events = Some evs, run = (\<lambda>_. Returns PNone)\<rparr>"

definition command_handler :: "string \<Rightarrow> string list \<Rightarrow> behaviour \<Rightarrow> handler" where
  "command_handler n cmds r =
     \<lparr>h_name = n, is_callable = True, ismethod = True, arglen = 0, varargs = True,
      h_commands = Some cmds, h_regex = None, h_events = None, run = (\<lambda>_. r)\<rparr>"

text \<open>A module whose \<^verbatim>\<open>setup(bot)\<close> returns an instance with the given methods.\<close>

definition module_of :: "string \<Rightarrow> handler list \<Rightarrow> pmodule" where
  "module_of n ms =
     \<lparr>mod_name = n,
      mod_setup = Some \<lparr>setup_arglen = 1,
                        setup_result = Some \<lparr>i_methods = ms, i_close = None\<rparr>\<rparr>\<rparr>"

text \<open>An event registry with the kind \<open>PRIVMSG\<close> declared with arity 3, as \<^verbatim>\<open>signedOn\<close> does.\<close>

definition em0 :: event_manager where
  "em0 =
     (case register (EventManager_init (PObj 0) [''id1'', ''id2'', ''id3'', ''id4'', ''id5''])
             (PEvent PRIVMSG) 3 of
        Return _ em \<Rightarrow> em
      | _ \<Rightarrow> EventManager_init (PObj 0) [])"

definition bot0 :: bot_state where
  "bot0 = \<lparr>plugins = [], event_manager = em0, reloads = 0\<rparr>"

text \<open>
  The plugin \<open>greeter\<close>: its first version subscribes two callbacks to \<open>PRIVMSG\<close>, its
  second version one callback that the arity check refuses.
\<close>

definition greeter_v1 :: pmodule where
  "greeter_v1 = module_of ''plugins.greeter''
     [event_callback ''greet'' [PEvent PRIVMSG] (Returns PNone),
      event_callback ''log'' [PEvent PRIVMSG] (Returns PNone)]"

definition greeter_v2 :: pmodule where
  "greeter_v2 = module_of ''plugins.greeter'' [fixed_callback ''greet'' [PEvent PRIVMSG]]"

definition importer_of :: "pmodule \<Rightarrow> pmodule \<Rightarrow> importer" where
  "importer_of first again =
     \<lparr>import_module = (\<lambda>n. if n = ''plugins.greeter'' then Some first else None),
      reload = (\<lambda>m. Some again)\<rparr>"

definition greeter_loaded :: bot_state where
  "greeter_loaded =
     (case load (importer_of greeter_v1 greeter_v1) bot0 [''greeter''] of
        Return _ b \<Rightarrow> b | Raise _ b \<Rightarrow> b | Diverge \<Rightarrow> bot0)"

text \<open>Two plugins with one command handler each, loaded as \<open>zeta\<close> and then \<open>alpha\<close>.\<close>

definition two_importer :: importer where
  "two_importer =
     \<lparr>import_module = (\<lambda>n.
         if n = ''plugins.zeta''
         then Some (module_of ''plugins.zeta''
                      [command_handler ''zeta.hi'' [''hi''] (Returns PNone)])
         else if n = ''plugins.alpha''
         then Some (module_of ''plugins.alpha''
                      [command_handler ''alpha.hi'' [''hi''] (Returns PNone)])
         else None),
      reload = (\<lambda>m. Some m)\<rparr>"

definition two_plugins :: bot_state where
  "two_plugins =
     (case load two_importer bot0 [''zeta'', ''alpha''] of
        Return _ b \<Rightarrow> b | Raise _ b \<Rightarrow> b | Diverge \<Rightarrow> bot0)"

definition zeta_reloaded :: bot_state where
  "zeta_reloaded =
     (case load two_importer two_plugins [''zeta''] of
        Return _ b \<Rightarrow> b | Raise _ b \<Rightarrow> b | Diverge \<Rightarrow> bot0)"

definition alpha_blacklisted :: bot_state where
  "alpha_blacklisted = snd (blacklist two_plugins ''alpha'' [PObj 7])"

definition unit_of :: "string \<Rightarrow> string \<Rightarrow> handler \<Rightarrow> pyobj list \<Rightarrow> plugin_unit" where
  "unit_of n m h bl =
     \<lparr>p_name = n, p_module = module_of m [h], p_instance = \<lparr>i_methods = [h], i_close = None\<rparr>,
      p_commands = [h], p_callbacks = [], p_callback_ids = [], p_blacklist = bl\<rparr>"



section \<open>Evaluation of the concrete inputs\<close>

lemmas str_defs = lower_def lower_char_def str_partition_def startswith_def split_ws_def
  is_space_def

lemmas chan_defs = Channel_init_def Channel_addUser_def Channel_removeUser_def
  Channel_renameUser_def Channel_setMode_def member_attrs_def op_translations_def

lemmas sess_defs = addUser_def removeUser_def renameUser_def joined_def left_def
  userJoined_def userLeft_def userQuit_def userRenamed_def userKicked_def in_some_channel_def
  modeChanged_def mode_translation_def irc_RPL_NAMREPLY_def User_init_def Let_def

lemmas ex_defs = event_callback_def fixed_callback_def command_handler_def module_of_def
  bot0_def greeter_v1_def greeter_v2_def importer_of_def

lemmas engine_defs = load_def load_module_def load_plugin_def register_plugin_callbacks_def
  register_callback_def add_callback_def callbacks_of_def append_id_def
  get_plugin_callbacks_def get_plugin_commands_def has_commands_def has_regex_def
  has_events_def unload_def unload_present_def unregister_plugin_callbacks_def
  unload_plugin_def unregister_callback_def Let_def

lemma alice_in_test_eq:
  "alice_in_test =
     \<lparr>nickname = ''ForkingDongles'',
      users = [(''alice'', \<lparr>u_nick = ''alice'', u_user = [], u_host = [], u_modes = [],
                            is_self = False\<rparr>)],
      channels = [(''#test'', \<lparr>ch_name = ''#test'', ch_users = [''alice''], ch_modes = [],
                     qops = [], sops = [], aops = [], hops = [], vops = [], bans = [],
                     isUser = False\<rparr>)],
      supported_PREFIX = Some [(''o'', ''@'', 0), (''v'', ''+'', 1), (''h'', ''%'', 2)],
      sent = [''WHOIS alice''],
      scheduled = [''MODE #test'', ''MODE #test b'']\<rparr>"
  by (simp add: alice_in_test_def session0_def str_defs chan_defs sess_defs)

lemma alice_in_two_eq:
  "alice_in_two =
     \<lparr>nickname = ''ForkingDongles'',
      users = [(''alice'', \<lparr>u_nick = ''alice'', u_user = [], u_host = [], u_modes = [],
                            is_self = False\<rparr>)],
      channels = [(''#test'', \<lparr>ch_name = ''#test'', ch_users = [''alice''], ch_modes = [],
                     qops = [], sops = [], aops = [], hops = [], vops = [], bans = [],
                     isUser = False\<rparr>),
                  (''#dev'', \<lparr>ch_name = ''#dev'', ch_users = [''alice''], ch_modes = [],
                     qops = [], sops = [], aops = [], hops = [], vops = [], bans = [],
                     isUser = False\<rparr>)],
      supported_PREFIX = Some [(''o'', ''@'', 0), (''v'', ''+'', 1), (''h'', ''%'', 2)],
      sent = [''WHOIS alice''],
      scheduled = [''MODE #test'', ''MODE #test b'', ''MODE #dev'', ''MODE #dev b'']\<rparr>"
  by (simp add: alice_in_two_def alice_in_test_eq str_defs chan_defs sess_defs)

lemma em0_eq:
  "em0 = \<lparr>em_bot = PObj 0, events = [(PEvent PRIVMSG, 3)], callbacks = [(PEvent PRIVMSG, [])],
           pending_ids = [''id1'', ''id2'', ''id3'', ''id4'', ''id5'']\<rparr>"
  by (simp add: em0_def register_def EventManager_init_def)



lemma greeter_loaded_eq:
  "greeter_loaded =
     \<lparr>plugins = [(''greeter'',
         \<lparr>p_name = ''greeter'', p_module = greeter_v1,
          p_instance = \<lparr>i_methods = [event_callback ''greet'' [PEvent PRIVMSG] (Returns PNone),
                                     event_callback ''log'' [PEvent PRIVMSG] (Returns PNone)],
                        i_close = None\<rparr>,
          p_commands = [],
          p_callbacks = [event_callback ''greet'' [PEvent PRIVMSG] (Returns PNone),
                         event_callback ''log'' [PEvent PRIVMSG] (Returns PNone)],
          p_callback_ids = [(PEvent PRIVMSG, [''id1'', ''id2''])], p_blacklist = []\<rparr>)],
      event_manager = em0\<lparr>callbacks := [(PEvent PRIVMSG,
           [(''id1'', event_callback ''greet'' [PEvent PRIVMSG] (Returns PNone)),
            (''id2'', event_callback ''log'' [PEvent PRIVMSG] (Returns PNone))])],
         pending_ids := [''id3'', ''id4'', ''id5'']\<rparr>,
      reloads = 0\<rparr>"
  by (simp add: greeter_loaded_def em0_eq ex_defs engine_defs)

lemma two_plugins_eq:
  "two_plugins =
     \<lparr>plugins =
        [(''zeta'', unit_of ''zeta'' ''plugins.zeta''
                     (command_handler ''zeta.hi'' [''hi''] (Returns PNone)) []),
         (''alpha'', unit_of ''alpha'' ''plugins.alpha''
                      (command_handler ''alpha.hi'' [''hi''] (Returns PNone)) [])],
      event_manager = em0, reloads = 0\<rparr>"
  by (simp add: two_plugins_def two_importer_def unit_of_def ex_defs engine_defs)

lemma alpha_blacklisted_eq:
  "alpha_blacklisted =
     \<lparr>plugins =
        [(''zeta'', unit_of ''zeta'' ''plugins.zeta''
                     (command_handler ''zeta.hi'' [''hi''] (Returns PNone)) []),
         (''alpha'', unit_of ''alpha'' ''plugins.alpha''
                      (command_handler ''alpha.hi'' [''hi''] (Returns PNone)) [PObj 7])],
      event_manager = em0, reloads = 0\<rparr>"
  by (simp add: alpha_blacklisted_def two_plugins_eq blacklist_def unit_of_def)

lemma unregister_ids_unfold:
  "unregister_ids em name ids i =
     (if i < length ids
      then unregister_ids (unregister_callback em name (ids ! i)) name
             (remove1 (ids ! i) ids) (Suc i)
      else (em, ids))"
  by simp

declare unregister_ids.simps [simp del]

section \<open>Session: quit and rename\<close>

text \<open>
  C1. When a tracked user quits, the registry entry is popped, but the nick stays in the
  membership of every tracked channel: the \<^verbatim>\<open>map\<close> that would call
  \<^verbatim>\<open>Channel.removeUser\<close> is never consumed. With alice tracked and a member of
  \<open>#test\<close>, \<^verbatim>\<open>userQuit('alice', 'bye')\<close> leaves \<open>#test\<close> as it was.
\<close>

theorem userQuit_keeps_membership:
  "userQuit alice_in_test ''alice'' ''bye'' = Return () (alice_in_test\<lparr>users := []\<rparr>)
   \<and> map (\<lambda>(k, c). (k, ch_users c)) (channels alice_in_test) = [(''#test'', [''alice''])]"
  by (simp add: alice_in_test_eq str_defs chan_defs sess_defs)

text \<open>
  C2. A rename moves the registry key only. The channels keep the old nick, since the
  \<^verbatim>\<open>map\<close> over the channels is never consumed; and a rename that changes only the
  casing deletes the entry it has just stored and then raises \<^verbatim>\<open>KeyError\<close>, so that the
  user is tracked under no key at all.
\<close>

theorem userRenamed_keeps_old_nick:
  "userRenamed alice_in_test ''alice'' ''bob'' =
     Return () (alice_in_test\<lparr>users :=
       [(''bob'', \<lparr>u_nick = ''bob'', u_user = [], u_host = [], u_modes = [],
                   is_self = False\<rparr>)]\<rparr>)
   \<and> map (\<lambda>(k, c). (k, ch_users c)) (channels alice_in_test) = [(''#test'', [''alice''])]
   \<and> userRenamed alice_in_test ''alice'' ''Alice'' =
       Raise KeyError (alice_in_test\<lparr>users := []\<rparr>)"
  by (simp add: alice_in_test_eq str_defs chan_defs sess_defs)

section \<open>Session: part and kick\<close>

lemma userKicked_eq: "userKicked s user channel kicker message = userLeft s user channel"
  by (simp add: userKicked_def userLeft_def)

lemma ch_users_removeUser:
  "ch_users (Channel_removeUser a c) = remove1 (lower (arg_nick a)) (ch_users c)"
  by (simp add: Channel_removeUser_def member_attrs_def remove1_idem)

lemma set_update_distinct:
  "distinct (map fst al) \<Longrightarrow> map_of al k = Some v0 \<Longrightarrow>
   set (AList.update k v al) = insert (k, v) {p \<in> set al. fst p \<noteq> k}"
  by (induction al) (auto simp: image_iff split: if_splits)

text \<open>
  C7. A tracked user leaves or is kicked from a tracked channel. The registry keys are
  the lowercase nicks, the channel table has no repeated key and the membership of the
  channel no repeated nick. Then both calls return, the nick is out of the channel's
  membership, and the user stays in the registry exactly when the nick is in the
  membership of another tracked channel.
\<close>

theorem userLeft_purge:
  assumes tracked: "map_of (users s) (lower (u_nick (User_init user))) = Some u"
    and key: "lower (u_nick u) = lower (u_nick (User_init user))"
    and chan: "map_of (channels s) (lower channel) = Some c"
    and dk: "distinct (map fst (channels s))"
    and du: "distinct (ch_users c)"
  shows "\<exists>s'. userLeft s user channel = Return () s'
           \<and> userKicked s user channel kicker message = Return () s'
           \<and> map_of (users s') (lower (u_nick u)) =
               (if in_other_channel s (lower channel) (lower (u_nick u)) then Some u else None)
           \<and> (\<exists>c'. map_of (channels s') (lower channel) = Some c'
                 \<and> lower (u_nick u) \<notin> set (ch_users c'))"
proof -
  let ?k = "lower (u_nick u)"
  let ?c' = "Channel_removeUser (Obj u) c"
  let ?s1 = "s\<lparr>channels := AList.update (lower channel) ?c' (channels s)\<rparr>"
  have gone: "?k \<notin> set (ch_users ?c')"
    using du by (simp add: ch_users_removeUser)
  have "set (channels ?s1) =
      insert (lower channel, ?c') {p \<in> set (channels s). fst p \<noteq> lower channel}"
    using set_update_distinct[OF dk chan] by simp
  then have some: "in_some_channel ?s1 ?k = in_other_channel s (lower channel) ?k"
    using gone by (auto simp: in_some_channel_def in_other_channel_def list_ex_iff)
  have look: "map_of (channels ?s1) (lower channel) = Some ?c'"
    by (simp add: update_conv')
  show ?thesis
  proof (cases "in_other_channel s (lower channel) ?k")
    case True
    then have "userLeft s user channel = Return () ?s1"
      using tracked chan some by (simp add: userLeft_def Let_def)
    then show ?thesis
      using True tracked key look gone by (simp add: userKicked_eq)
  next
    case False
    then have "userLeft s user channel = Return () (snd (removeUser ?s1 (Obj u)))"
      using tracked chan some by (simp add: userLeft_def Let_def)
    moreover have "snd (removeUser ?s1 (Obj u)) = ?s1\<lparr>users := AList.delete ?k (users s)\<rparr>"
      using tracked key by (simp add: removeUser_def)
    ultimately show ?thesis
      using False look gone by (simp add: userKicked_eq delete_conv')
  qed
qed

text \<open>
  Witness of C7: alice leaves \<open>#test\<close>. When it is her only channel she is purged; when
  she is in \<open>#dev\<close> as well she is kept.
\<close>

theorem userLeft_purge_witness:
  "(\<exists>s'. userLeft alice_in_test ''alice'' ''#test'' = Return () s'
        \<and> userKicked alice_in_test ''alice'' ''#test'' ''op'' ''bye'' = Return () s'
        \<and> map_of (users s') ''alice'' = None)
   \<and> (\<exists>s'. userLeft alice_in_two ''alice'' ''#test'' = Return () s'
        \<and> userKicked alice_in_two ''alice'' ''#test'' ''op'' ''bye'' = Return () s'
        \<and> map_of (users s') ''alice'' = map_of (users alice_in_two) ''alice''
        \<and> map_of (users alice_in_two) ''alice'' \<noteq> None)"
proof -
  let ?u = "\<lparr>u_nick = ''alice'', u_user = [], u_host = [], u_modes = [], is_self = False\<rparr>"
  let ?c = "\<lparr>ch_name = ''#test'', ch_users = [''alice''], ch_modes = [],
             qops = [], sops = [], aops = [], hops = [], vops = [], bans = [],
             isUser = False\<rparr>"
  have one: "\<exists>s'. userLeft alice_in_test ''alice'' ''#test'' = Return () s'
        \<and> userKicked alice_in_test ''alice'' ''#test'' ''op'' ''bye'' = Return () s'
        \<and> map_of (users s') ''alice'' = None"
    using userLeft_purge[of alice_in_test "''alice''" ?u "''#test''" ?c "''op''" "''bye''"]
    by (auto simp: alice_in_test_eq in_other_channel_def User_init_def str_defs)
  have two: "\<exists>s'. userLeft alice_in_two ''alice'' ''#test'' = Return () s'
        \<and> userKicked alice_in_two ''alice'' ''#test'' ''op'' ''bye'' = Return () s'
        \<and> map_of (users s') ''alice'' = map_of (users alice_in_two) ''alice''
        \<and> map_of (users alice_in_two) ''alice'' \<noteq> None"
    using userLeft_purge[of alice_in_two "''alice''" ?u "''#test''" ?c "''op''" "''bye''"]
    by (auto simp: alice_in_two_eq in_other_channel_def User_init_def str_defs)
  from one two show ?thesis by blast
qed

section \<open>Domain model: modes\<close>

text \<open>
  C8. \<^verbatim>\<open>setMode\<close> leaves a User and a Channel unchanged when it adds what is present or
  removes what is absent: a mode flag of a User, a mode flag of a Channel (no argument),
  an entry of a privilege list (one of the letters q, a, o, h, v with an argument), and a
  ban entry (the letter b with an argument).
\<close>

theorem setMode_idempotent:
  "(str_contains m1 (u_modes u) \<longrightarrow> User_setMode True m1 arg u = u)
   \<and> (\<not> str_contains m2 (u_modes u) \<longrightarrow> User_setMode False m2 arg u = u)
   \<and> (str_contains m3 (ch_modes c) \<longrightarrow> Channel_setMode True m3 None c = c)
   \<and> (\<not> str_contains m4 (ch_modes c) \<longrightarrow> Channel_setMode False m4 None c = c)
   \<and> (map_of op_translations m5 = Some t \<and> lower a1 \<in> set (getattr t c)
        \<longrightarrow> Channel_setMode True m5 (Some a1) c = c)
   \<and> (map_of op_translations m5 = Some t \<and> lower a2 \<notin> set (getattr t c)
        \<longrightarrow> Channel_setMode False m5 (Some a2) c = c)
   \<and> (lower a3 \<in> set (bans c) \<longrightarrow> Channel_setMode True ''b'' (Some a3) c = c)
   \<and> (lower a4 \<notin> set (bans c) \<longrightarrow> Channel_setMode False ''b'' (Some a4) c = c)"
proof -
  have ne: "m5 \<noteq> ''b''" if "map_of op_translations m5 = Some t"
    using that by (auto simp: op_translations_def split: if_splits)
  have b: "map_of op_translations ''b'' = None"
    by (simp add: op_translations_def)
  show ?thesis
    using ne by (auto simp: User_setMode_def Channel_setMode_def b)
qed

text \<open>
  Witness of C8: an identified user, and a channel with the flag n, the operator alice
  and one ban.
\<close>

theorem setMode_idempotent_witness:
  "str_contains ''r'' ''r'' \<and> \<not> str_contains ''z'' ''r''
   \<and> str_contains ''n'' ''n'' \<and> \<not> str_contains ''m'' ''n''
   \<and> map_of op_translations ''o'' = Some Aops
   \<and> User_setMode True ''r'' None ((User_init ''alice'')\<lparr>u_modes := ''r''\<rparr>) =
       (User_init ''alice'')\<lparr>u_modes := ''r''\<rparr>
   \<and> User_setMode False ''z'' None ((User_init ''alice'')\<lparr>u_modes := ''r''\<rparr>) =
       (User_init ''alice'')\<lparr>u_modes := ''r''\<rparr>
   \<and> Channel_setMode True ''n'' None
        ((Channel_init ''#test'')\<lparr>ch_modes := ''n'', aops := [''alice''], bans := [''*!*@spam'']\<rparr>) =
       (Channel_init ''#test'')\<lparr>ch_modes := ''n'', aops := [''alice''], bans := [''*!*@spam'']\<rparr>
   \<and> Channel_setMode False ''m'' None
        ((Channel_init ''#test'')\<lparr>ch_modes := ''n'', aops := [''alice''], bans := [''*!*@spam'']\<rparr>) =
       (Channel_init ''#test'')\<lparr>ch_modes := ''n'', aops := [''alice''], bans := [''*!*@spam'']\<rparr>
   \<and> Channel_setMode True ''o'' (Some ''Alice'')
        ((Channel_init ''#test'')\<lparr>ch_modes := ''n'', aops := [''alice''], bans := [''*!*@spam'']\<rparr>) =
       (Channel_init ''#test'')\<lparr>ch_modes := ''n'', aops := [''alice''], bans := [''*!*@spam'']\<rparr>
   \<and> Channel_setMode False ''o'' (Some ''Bob'')
        ((Channel_init ''#test'')\<lparr>ch_modes := ''n'', aops := [''alice''], bans := [''*!*@spam'']\<rparr>) =
       (Channel_init ''#test'')\<lparr>ch_modes := ''n'', aops := [''alice''], bans := [''*!*@spam'']\<rparr>
   \<and> Channel_setMode True ''b'' (Some ''*!*@SPAM'')
        ((Channel_init ''#test'')\<lparr>ch_modes := ''n'', aops := [''alice''], bans := [''*!*@spam'']\<rparr>) =
       (Channel_init ''#test'')\<lparr>ch_modes := ''n'', aops := [''alice''], bans := [''*!*@spam'']\<rparr>
   \<and> Channel_setMode False ''b'' (Some ''*!*@other'')
        ((Channel_init ''#test'')\<lparr>ch_modes := ''n'', aops := [''alice''], bans := [''*!*@spam'']\<rparr>) =
       (Channel_init ''#test'')\<lparr>ch_modes := ''n'', aops := [''alice''], bans := [''*!*@spam'']\<rparr>"
proof -
  let ?u = "(User_init ''alice'')\<lparr>u_modes := ''r''\<rparr>"
  let ?c = "(Channel_init ''#test'')\<lparr>ch_modes := ''n'', aops := [''alice''],
              bans := [''*!*@spam'']\<rparr>"
  have h: "str_contains ''r'' (u_modes ?u)" "\<not> str_contains ''z'' (u_modes ?u)"
    "str_contains ''n'' (ch_modes ?c)" "\<not> str_contains ''m'' (ch_modes ?c)"
    "map_of op_translations ''o'' = Some Aops"
    "lower ''Alice'' \<in> set (getattr Aops ?c)" "lower ''Bob'' \<notin> set (getattr Aops ?c)"
    "lower ''*!*@SPAM'' \<in> set (bans ?c)" "lower ''*!*@other'' \<notin> set (bans ?c)"
    by (simp_all add: op_translations_def str_defs)
  show ?thesis
    using h setMode_idempotent[of "''r''" ?u None "''z''" "''n''" ?c "''m''" "''o''" Aops
        "''Alice''" "''Bob''" "''*!*@SPAM''" "''*!*@other''"]
    by simp
qed

section \<open>Session: name-list reply\<close>

lemma addUser_channels: "channels (snd (addUser s a)) = channels s"
  by (simp add: addUser_def Let_def split: option.splits)

lemma addUser_PREFIX: "supported_PREFIX (snd (addUser s a)) = supported_PREFIX s"
  by (simp add: addUser_def Let_def split: option.splits)

lemma mode_translation_channels:
  "mode_translation (s\<lparr>channels := x\<rparr>) = mode_translation s"
  by (simp add: mode_translation_def)

lemma mode_translation_addUser:
  "mode_translation (snd (addUser s a)) = mode_translation s"
  by (simp add: mode_translation_def addUser_PREFIX)

lemma names_loop_step:
  assumes "map_of (channels s) (lower channel) = Some ch"
  shows "names_loop channel ((c # cs) # nicks) modes args s =
     (let r = (case map_of (mode_translation s) [c] of
               Some m \<Rightarrow> (cs, modes @ m, args @ [cs])
             | None \<Rightarrow> (c # cs, modes, args));
          s1 = snd (addUser s (Str (fst r)))
      in names_loop channel nicks (fst (snd r)) (snd (snd r))
           (s1\<lparr>channels :=
                 AList.update (lower channel) (Channel_addUser (Str (fst r)) ch) (channels s)\<rparr>))"
  using assms
  by (simp add: Let_def split_beta addUser_channels split: option.splits prod.splits)

lemma namreply_channel:
  assumes at: "map_of (mode_translation s) ''@'' = Some ''o''"
    and plus: "map_of (mode_translation s) ''+'' = Some ''v''"
    and plain: "map_of (mode_translation s) ''c'' = None"
    and chan: "map_of (channels s) ''#test'' = Some c"
  shows "\<exists>s'. irc_RPL_NAMREPLY s pfx (ps @ [''#test'', ''@alice +bob carol'']) = Return () s'
     \<and> map_of (channels s') ''#test'' =
         Some (Channel_setMode True ''v'' (Some ''bob'')
                (Channel_setMode True ''o'' (Some ''alice'')
                  (Channel_addUser (Str ''carol'')
                    (Channel_addUser (Str ''bob'')
                      (Channel_addUser (Str ''alice'') c)))))"
proof -
  have lw: "lower ''#test'' = ''#test''"
    by (simp add: lower_def lower_char_def)
  have sp: "split_ws ''@alice +bob carol'' = [''@alice'', ''+bob'', ''carol'']"
    by (simp add: split_ws_def is_space_def)
  have sel: "(ps @ [''#test'', ''@alice +bob carol''])
               ! (length (ps @ [''#test'', ''@alice +bob carol'']) - 2) = ''#test''"
    by (simp add: nth_append)
  show ?thesis
    unfolding irc_RPL_NAMREPLY_def Let_def sel
    using chan
    apply (simp add: sp lw names_loop_step at plus plain update_conv' addUser_channels Let_def
        mode_translation_channels mode_translation_addUser del: names_loop.simps)
    apply (simp add: modeChanged_def startswith_def lw update_conv' addUser_channels)
    done
qed

lemma set_users_addUser:
  "set (ch_users (Channel_addUser a c)) = insert (lower (arg_nick a)) (set (ch_users c))"
  by (auto simp: Channel_addUser_def)

lemma getattr_addUser: "t \<noteq> Users \<Longrightarrow> getattr t (Channel_addUser a c) = getattr t c"
  by (cases t) (simp_all add: Channel_addUser_def)

lemma getattr_setattr: "getattr t' (setattr t xs c) = (if t' = t then xs else getattr t' c)"
  by (cases t; cases t') simp_all

lemma op_translations_not_b: "map_of op_translations m = Some t \<Longrightarrow> m \<noteq> ''b''"
  by (auto simp: op_translations_def split: if_splits)

lemma set_getattr_setMode:
  assumes "map_of op_translations m = Some t"
  shows "set (getattr t' (Channel_setMode True m (Some a) c)) =
     (if t' = t then insert (lower a) (set (getattr t' c)) else set (getattr t' c))"
  using assms op_translations_not_b[OF assms]
  by (auto simp: Channel_setMode_def getattr_setattr)

lemma op_translations_Users: "map_of op_translations m = Some t \<Longrightarrow> t \<noteq> Users"
  by (auto simp: op_translations_def split: if_splits)

lemma namreply_privileges:
  assumes carol: "\<forall>t \<in> set [Qops, Sops, Aops, Hops, Vops]. ''carol'' \<notin> set (getattr t c)"
    and c': "c' = Channel_setMode True ''v'' (Some ''bob'')
                (Channel_setMode True ''o'' (Some ''alice'')
                  (Channel_addUser (Str ''carol'')
                    (Channel_addUser (Str ''bob'')
                      (Channel_addUser (Str ''alice'') c))))"
  shows "isOP c' (Str ''alice'') \<and> isVoice c' (Str ''bob'')
     \<and> (\<forall>t \<in> set [Qops, Sops, Aops, Hops, Vops]. ''carol'' \<notin> set (getattr t c'))
     \<and> {''alice'', ''bob'', ''carol''} \<subseteq> set (ch_users c')"
proof -
  have lw: "lower ''alice'' = ''alice''" "lower ''bob'' = ''bob''" "lower ''carol'' = ''carol''"
    by (simp_all add: lower_def lower_char_def)
  have o: "map_of op_translations ''o'' = Some Aops"
    and v: "map_of op_translations ''v'' = Some Vops"
    by (simp_all add: op_translations_def)
  have priv: "set (getattr t c') =
      (if t = Vops then insert ''bob'' (set (getattr t c))
       else if t = Aops then insert ''alice'' (set (getattr t c))
       else set (getattr t c))" if "t \<noteq> Users" for t
    using that
    by (simp add: c' set_getattr_setMode[OF v] set_getattr_setMode[OF o] getattr_addUser lw
        del: getattr.simps)
  have mem: "set (ch_users c') = {''alice'', ''bob'', ''carol''} \<union> set (ch_users c)"
    by (simp add: c' set_getattr_setMode[OF v, of Users, simplified]
        set_getattr_setMode[OF o, of Users, simplified] set_users_addUser lw insert_commute)
  have "isOP c' (Str ''alice'')"
    using priv[of Aops] by (simp add: isAOP_def lw)
  moreover have "isVoice c' (Str ''bob'')"
    using priv[of Vops] by (simp add: isVOP_def lw)
  moreover have "\<forall>t \<in> set [Qops, Sops, Aops, Hops, Vops]. ''carol'' \<notin> set (getattr t c')"
    using carol priv[of Qops] priv[of Sops] priv[of Aops] priv[of Hops] priv[of Vops]
    by simp
  ultimately show ?thesis
    using mem by simp
qed

lemma carol_is_op_eq:
  "carol_is_op =
     \<lparr>nickname = ''ForkingDongles'', users = [],
      channels = [(''#test'', \<lparr>ch_name = ''#test'', ch_users = [], ch_modes = [],
                     qops = [], sops = [], aops = [''carol''], hops = [], vops = [], bans = [],
                     isUser = False\<rparr>)],
      supported_PREFIX = Some [(''o'', ''@'', 0), (''v'', ''+'', 1), (''h'', ''%'', 2)],
      sent = [], scheduled = [''MODE #test'', ''MODE #test b'']\<rparr>"
  by (simp add: carol_is_op_def session0_def str_defs chan_defs sess_defs)

text \<open>
  C9, as the claim states it, fails: the reply adds privileges and takes none away. With
  carol an operator of the tracked channel \<open>#test\<close> beforehand (and no prefix table
  advertised by the server, so that the preset one is in force), carol is still in the
  operator list after the reply \<^verbatim>\<open>@alice +bob carol\<close>.
\<close>

theorem namreply_keeps_operator:
  "irc_RPL_NAMREPLY carol_is_op ''irc.example.com''
     [''ForkingDongles'', ''='', ''#test'', ''@alice +bob carol''] = Return () carol_after_names
   \<and> map_of (channels carol_after_names) ''#test'' = Some test_after_names
   \<and> isOP test_after_names (Str ''carol'')"
proof -
  have sp: "split_ws ''@alice +bob carol'' = [''@alice'', ''+bob'', ''carol'']"
    by (simp add: split_ws_def is_space_def)
  have lw: "lower ''#test'' = ''#test''" "lower ''alice'' = ''alice''" "lower ''bob'' = ''bob''"
    "lower ''carol'' = ''carol''" "lower ''ForkingDongles'' = ''forkingdongles''"
    by (simp_all add: lower_def lower_char_def)
  have us: "User_init ''alice'' =
      \<lparr>u_nick = ''alice'', u_user = [], u_host = [], u_modes = [], is_self = False\<rparr>"
    "User_init ''bob'' =
      \<lparr>u_nick = ''bob'', u_user = [], u_host = [], u_modes = [], is_self = False\<rparr>"
    "User_init ''carol'' =
      \<lparr>u_nick = ''carol'', u_user = [], u_host = [], u_modes = [], is_self = False\<rparr>"
    by (simp_all add: User_init_def str_partition_def)
  have run: "irc_RPL_NAMREPLY carol_is_op ''irc.example.com''
     [''ForkingDongles'', ''='', ''#test'', ''@alice +bob carol''] = Return () carol_after_names"
    by (simp add: carol_after_names_def test_after_names_def carol_is_op_eq
        irc_RPL_NAMREPLY_def sp lw us mode_translation_def addUser_def modeChanged_def
        startswith_def Channel_addUser_def Channel_setMode_def op_translations_def Let_def)
  have "map_of (channels carol_after_names) ''#test'' = Some test_after_names"
    by (simp add: carol_after_names_def)
  moreover have "isOP test_after_names (Str ''carol'')"
    by (simp add: isAOP_def test_after_names_def lw)
  ultimately show ?thesis
    using run by blast
qed

text \<open>
  C9, amended. \<open>#test\<close> is tracked and carol is in none of its privilege lists, and the
  symbol table in force maps \<^verbatim>\<open>@\<close> to the letter o and \<^verbatim>\<open>+\<close> to the letter v and has no
  symbol \<^verbatim>\<open>c\<close>: so do the fallback table of the code, used when the \<^verbatim>\<open>PREFIX\<close> feature is
  absent, and the preset table that is in force when the server advertises none. After
  the name-list reply \<^verbatim>\<open>@alice +bob carol\<close> for \<open>#test\<close>, alice is in the operator list,
  bob in the voice list, carol still in no privilege list, and the three nicks are in the
  membership.
\<close>

theorem namreply_alice_bob_carol:
  assumes at: "map_of (mode_translation s) ''@'' = Some ''o''"
    and plus: "map_of (mode_translation s) ''+'' = Some ''v''"
    and plain: "map_of (mode_translation s) ''c'' = None"
    and chan: "map_of (channels s) ''#test'' = Some c"
    and carol: "\<forall>t \<in> set [Qops, Sops, Aops, Hops, Vops]. ''carol'' \<notin> set (getattr t c)"
  shows "\<exists>s' c'. irc_RPL_NAMREPLY s pfx (ps @ [''#test'', ''@alice +bob carol'']) = Return () s'
     \<and> map_of (channels s') ''#test'' = Some c'
     \<and> isOP c' (Str ''alice'') \<and> isVoice c' (Str ''bob'')
     \<and> (\<forall>t \<in> set [Qops, Sops, Aops, Hops, Vops]. ''carol'' \<notin> set (getattr t c'))
     \<and> {''alice'', ''bob'', ''carol''} \<subseteq> set (ch_users c')"
proof -
  from namreply_channel[OF at plus plain chan, of pfx ps] obtain s' where
    r: "irc_RPL_NAMREPLY s pfx (ps @ [''#test'', ''@alice +bob carol'']) = Return () s'"
    and c': "map_of (channels s') ''#test'' =
         Some (Channel_setMode True ''v'' (Some ''bob'')
                (Channel_setMode True ''o'' (Some ''alice'')
                  (Channel_addUser (Str ''carol'')
                    (Channel_addUser (Str ''bob'')
                      (Channel_addUser (Str ''alice'') c)))))"
    by blast
  from namreply_privileges[OF carol refl] r c' show ?thesis
    by (intro exI conjI) (assumption | simp)+
qed

text \<open>
  Witness of C9, amended: the reply arrives right after the bot has joined \<open>#test\<close>, once
  with the preset table in force and once with the \<^verbatim>\<open>PREFIX\<close> feature absent.
\<close>

theorem namreply_alice_bob_carol_witness:
  "mode_translation (joined session0 ''#test'') = [(''%'', ''h''), (''+'', ''v''), (''@'', ''o'')]
   \<and> map_of (channels (joined session0 ''#test'')) ''#test'' = Some (Channel_init ''#test'')
   \<and> (\<exists>s' c'. irc_RPL_NAMREPLY (joined session0 ''#test'') ''irc.example.com''
                  [''ForkingDongles'', ''='', ''#test'', ''@alice +bob carol''] = Return () s'
        \<and> map_of (channels s') ''#test'' = Some c'
        \<and> isOP c' (Str ''alice'') \<and> isVoice c' (Str ''bob'')
        \<and> \<not> isOP c' (Str ''carol'') \<and> \<not> isVoice c' (Str ''carol'')
        \<and> {''alice'', ''bob'', ''carol''} \<subseteq> set (ch_users c'))
   \<and> supported_PREFIX (joined session_no_prefix ''#test'') = None
   \<and> (\<exists>s' c'. irc_RPL_NAMREPLY (joined session_no_prefix ''#test'') ''irc.example.com''
                  [''ForkingDongles'', ''='', ''#test'', ''@alice +bob carol''] = Return () s'
        \<and> map_of (channels s') ''#test'' = Some c'
        \<and> isOP c' (Str ''alice'') \<and> isVoice c' (Str ''bob'')
        \<and> \<not> isOP c' (Str ''carol'') \<and> \<not> isVoice c' (Str ''carol'')
        \<and> {''alice'', ''bob'', ''carol''} \<subseteq> set (ch_users c'))"
proof -
  let ?s = "joined session0 ''#test''"
  let ?n = "joined session_no_prefix ''#test''"
  have mt: "mode_translation ?s = [(''%'', ''h''), (''+'', ''v''), (''@'', ''o'')]"
    by (simp add: mode_translation_def joined_def session0_def Let_def)
  have np: "supported_PREFIX ?n = None"
    by (simp add: joined_def session_no_prefix_def session0_def Let_def)
  have mn: "mode_translation ?n =
      [(''~'', ''q''), (''&'', ''a''), (''@'', ''o''), (''%'', ''h''), (''+'', ''v'')]"
    using np by (simp add: mode_translation_def)
  have h2: "map_of (channels ?s) ''#test'' = Some (Channel_init ''#test'')"
    by (simp add: joined_def session0_def Let_def str_defs)
  have n2: "map_of (channels ?n) ''#test'' = Some (Channel_init ''#test'')"
    by (simp add: joined_def session_no_prefix_def session0_def Let_def str_defs)
  have h3: "\<forall>t \<in> set [Qops, Sops, Aops, Hops, Vops].
              ''carol'' \<notin> set (getattr t (Channel_init ''#test''))"
    by (simp add: Channel_init_def)
  have lw: "lower ''carol'' = ''carol''"
    by (simp add: str_defs)
  have one: "\<exists>s' c'. irc_RPL_NAMREPLY ?s ''irc.example.com''
                  [''ForkingDongles'', ''='', ''#test'', ''@alice +bob carol''] = Return () s'
        \<and> map_of (channels s') ''#test'' = Some c'
        \<and> isOP c' (Str ''alice'') \<and> isVoice c' (Str ''bob'')
        \<and> \<not> isOP c' (Str ''carol'') \<and> \<not> isVoice c' (Str ''carol'')
        \<and> {''alice'', ''bob'', ''carol''} \<subseteq> set (ch_users c')"
    using namreply_alice_bob_carol[of ?s "Channel_init ''#test''" "''irc.example.com''"
        "[''ForkingDongles'', ''='']"] h2 h3
    by (auto simp: mt isAOP_def isVOP_def lw)
  have two: "\<exists>s' c'. irc_RPL_NAMREPLY ?n ''irc.example.com''
                  [''ForkingDongles'', ''='', ''#test'', ''@alice +bob carol''] = Return () s'
        \<and> map_of (channels s') ''#test'' = Some c'
        \<and> isOP c' (Str ''alice'') \<and> isVoice c' (Str ''bob'')
        \<and> \<not> isOP c' (Str ''carol'') \<and> \<not> isVoice c' (Str ''carol'')
        \<and> {''alice'', ''bob'', ''carol''} \<subseteq> set (ch_users c')"
    using namreply_alice_bob_carol[of ?n "Channel_init ''#test''" "''irc.example.com''"
        "[''ForkingDongles'', ''='']"] n2 h3
    by (auto simp: mn isAOP_def isVOP_def lw)
  from mt h2 one np two show ?thesis
    by blast
qed

section \<open>Event registry\<close>

lemma update_fresh_append: "k \<notin> fst ` set al \<Longrightarrow> AList.update k v al = al @ [(k, v)]"
  by (induction al) auto

lemma fresh_id_finds:
  "\<exists>i \<in> set ids. i \<notin> set taken \<Longrightarrow>
   \<exists>i rest. fresh_id taken ids = Some (i, rest) \<and> i \<notin> set taken"
  by (induction ids) auto

text \<open>
  C10. The callback is invocable, the kind is not declared, and one of the pending draws
  is not yet an identifier of the kind (the drawing loop ends). Then
  \<^verbatim>\<open>register_callback\<close> returns an identifier that was not in use for the kind and stores
  the callback under it, after the callbacks the kind already had; nothing is asked of
  \<open>arglen\<close> or \<open>varargs\<close>, and the declared kinds are unchanged.
\<close>

theorem register_callback_undeclared_kind:
  assumes call: "is_callable cb"
    and unreg: "map_of (events em) name = None"
    and draw: "\<exists>i \<in> set (pending_ids em). i \<notin> fst ` set (callbacks_of em name)"
  shows "\<exists>i em'. register_callback em name cb = Return i em'
           \<and> i \<notin> fst ` set (callbacks_of em name)
           \<and> callbacks_of em' name = callbacks_of em name @ [(i, cb)]
           \<and> events em' = events em"
proof -
  from draw obtain i rest where
    f: "fresh_id (map fst (callbacks_of em name)) (pending_ids em) = Some (i, rest)"
    and new: "i \<notin> fst ` set (callbacks_of em name)"
    using fresh_id_finds[of "pending_ids em" "map fst (callbacks_of em name)"] by auto
  let ?em' = "em\<lparr>callbacks :=
                    AList.update name (AList.update i cb (callbacks_of em name)) (callbacks em),
                  pending_ids := rest\<rparr>"
  have "register_callback em name cb = Return i ?em'"
    using call unreg f by (simp add: register_callback_def add_callback_def)
  moreover have "callbacks_of ?em' name = callbacks_of em name @ [(i, cb)]"
    using new by (simp add: callbacks_of_def update_conv' update_fresh_append)
  ultimately show ?thesis using new by auto
qed

text \<open>
  Witness of C10: a callback with five fixed parameters is registered for the kind
  \<^verbatim>\<open>'custom'\<close>, which nobody declared; the first draw is taken, the second is free.
\<close>

theorem register_callback_undeclared_kind_witness:
  "is_callable (fixed_callback ''on_custom'' [PStr ''custom''])
   \<and> map_of (events (em0\<lparr>callbacks := [(PStr ''custom'', [(''id1'', fixed_callback ''old'' [])])]\<rparr>))
        (PStr ''custom'') = None
   \<and> (\<exists>em'. register_callback
               (em0\<lparr>callbacks := [(PStr ''custom'', [(''id1'', fixed_callback ''old'' [])])]\<rparr>)
               (PStr ''custom'') (fixed_callback ''on_custom'' [PStr ''custom'']) =
             Return ''id2'' em'
        \<and> callbacks_of em' (PStr ''custom'') =
            [(''id1'', fixed_callback ''old'' []),
             (''id2'', fixed_callback ''on_custom'' [PStr ''custom''])])"
proof -
  let ?em = "em0\<lparr>callbacks := [(PStr ''custom'', [(''id1'', fixed_callback ''old'' [])])]\<rparr>"
  let ?cb = "fixed_callback ''on_custom'' [PStr ''custom'']"
  have h1: "is_callable ?cb"
    by (simp add: fixed_callback_def)
  have h2: "map_of (events ?em) (PStr ''custom'') = None"
    by (simp add: em0_eq)
  have h3: "\<exists>i \<in> set (pending_ids ?em). i \<notin> fst ` set (callbacks_of ?em (PStr ''custom''))"
    by (simp add: em0_eq callbacks_of_def)
  have ev: "register_callback ?em (PStr ''custom'') ?cb = Return i em' \<Longrightarrow> i = ''id2''" for i em'
    by (simp add: register_callback_def add_callback_def callbacks_of_def em0_eq
        fixed_callback_def)
  from register_callback_undeclared_kind[OF h1 h2 h3] obtain i em' where
    r: "register_callback ?em (PStr ''custom'') ?cb = Return i em'"
    and c: "callbacks_of em' (PStr ''custom'') = callbacks_of ?em (PStr ''custom'') @ [(i, ?cb)]"
    by blast
  from ev[OF r] r c h1 h2 show ?thesis
    by (auto simp: callbacks_of_def)
qed









section \<open>Plugin engine: reload\<close>

text \<open>
  C3. The plugin \<open>greeter\<close> is loaded with the callbacks \<open>id1\<close> and \<open>id2\<close> registered for
  \<open>PRIVMSG\<close>. A reload whose callback registration fails goes on after the handler of
  the failure: the previous unit is unloaded, its record is gone, and the call ends in
  \<^verbatim>\<open>UnboundLocalError\<close>. A reload that succeeds deregisters \<open>id1\<close> only, because the
  deregistration loop removes from the list it iterates over: \<open>id2\<close> of the previous unit
  stays registered beside the new \<open>id3\<close> and \<open>id4\<close>.
\<close>

theorem reload_displaces_previous_unit:
  "map_of (plugins greeter_loaded) ''greeter'' \<noteq> None
   \<and> map fst (callbacks_of (event_manager greeter_loaded) (PEvent PRIVMSG)) = [''id1'', ''id2'']
   \<and> load (importer_of greeter_v1 greeter_v2) greeter_loaded [''greeter''] =
       Raise UnboundLocalError
         (greeter_loaded\<lparr>plugins := [],
            event_manager := (event_manager greeter_loaded)\<lparr>callbacks := [(PEvent PRIVMSG,
               [(''id2'', event_callback ''log'' [PEvent PRIVMSG] (Returns PNone))])]\<rparr>\<rparr>)
   \<and> (case load (importer_of greeter_v1 greeter_v1) greeter_loaded [''greeter''] of
         Return failed b \<Rightarrow>
           failed = []
           \<and> map (\<lambda>(n, u). (n, p_callback_ids u)) (plugins b) =
               [(''greeter'', [(PEvent PRIVMSG, [''id3'', ''id4''])])]
           \<and> map fst (callbacks_of (event_manager b) (PEvent PRIVMSG)) =
               [''id2'', ''id3'', ''id4'']
       | _ \<Rightarrow> False)"
proof -
  have a: "map_of (plugins greeter_loaded) ''greeter'' \<noteq> None"
    by (simp add: greeter_loaded_eq)
  have b: "map fst (callbacks_of (event_manager greeter_loaded) (PEvent PRIVMSG)) =
      [''id1'', ''id2'']"
    by (simp add: greeter_loaded_eq callbacks_of_def)
  have c: "load (importer_of greeter_v1 greeter_v2) greeter_loaded [''greeter''] =
       Raise UnboundLocalError
         (greeter_loaded\<lparr>plugins := [],
            event_manager := (event_manager greeter_loaded)\<lparr>callbacks := [(PEvent PRIVMSG,
               [(''id2'', event_callback ''log'' [PEvent PRIVMSG] (Returns PNone))])]\<rparr>\<rparr>)"
    apply (simp add: greeter_loaded_eq)
    apply (simp add: ex_defs em0_eq engine_defs)
    apply (subst unregister_ids_unfold, simp add: unregister_callback_def)+
    done
  have d: "(case load (importer_of greeter_v1 greeter_v1) greeter_loaded [''greeter''] of
         Return failed b \<Rightarrow>
           failed = []
           \<and> map (\<lambda>(n, u). (n, p_callback_ids u)) (plugins b) =
               [(''greeter'', [(PEvent PRIVMSG, [''id3'', ''id4''])])]
           \<and> map fst (callbacks_of (event_manager b) (PEvent PRIVMSG)) =
               [''id2'', ''id3'', ''id4'']
       | _ \<Rightarrow> False)"
    apply (simp add: greeter_loaded_eq)
    apply (simp add: ex_defs em0_eq engine_defs)
    apply (subst unregister_ids_unfold, simp add: unregister_callback_def)+
    done
  from a b c d show ?thesis by blast
qed

section \<open>Plugin engine: command routing\<close>

lemma command_loop_Cons:
  "command_loop b cmd params user channel message (c # rest) result trace =
     (case handler_call b cmd params user channel message c of
        None \<Rightarrow> command_loop b cmd params user channel message rest result trace
      | Some args \<Rightarrow>
          (case run c args of
             Returns v \<Rightarrow>
               if v = PEvent STOP_ALL then (Inr v, trace @ [h_name c])
               else command_loop b cmd params user channel message rest v (trace @ [h_name c])
           | RaisesAssertionError in_defer \<Rightarrow>
               if in_defer
               then command_loop b cmd params user channel message rest result
                      (trace @ [h_name c])
               else (Inl TypeError, trace @ [h_name c])
           | _ \<Rightarrow>
               command_loop b cmd params user channel message rest result (trace @ [h_name c])))"
  by (simp add: handler_call_def)

lemma command_loop_trace:
  "\<exists>t. snd (command_loop b cmd params user channel message cs result trace) = trace @ t
       \<and> subseq t (map h_name cs)"
proof (induction cs arbitrary: result trace)
  case Nil
  then show ?case by simp
next
  case (Cons c cs)
  let ?L = "\<lambda>cs result trace. command_loop b cmd params user channel message cs result trace"
  have "?L (c # cs) result trace = ?L cs result trace
      \<or> (\<exists>x. ?L (c # cs) result trace = (x, trace @ [h_name c]))
      \<or> (\<exists>r. ?L (c # cs) result trace = ?L cs r (trace @ [h_name c]))"
    by (auto simp: command_loop_Cons simp del: command_loop.simps
             split: option.splits behaviour.splits)
  then consider (skip) "?L (c # cs) result trace = ?L cs result trace"
    | (stop) x where "?L (c # cs) result trace = (x, trace @ [h_name c])"
    | (go) r where "?L (c # cs) result trace = ?L cs r (trace @ [h_name c])"
    by blast
  then show ?case
  proof cases
    case skip
    obtain t where "snd (?L cs result trace) = trace @ t" and "subseq t (map h_name cs)"
      using Cons.IH[of result trace] by blast
    then show ?thesis using skip by auto
  next
    case stop
    then show ?thesis by simp
  next
    case go
    obtain t where "snd (?L cs r (trace @ [h_name c])) = (trace @ [h_name c]) @ t"
      and "subseq t (map h_name cs)"
      using Cons.IH[of r "trace @ [h_name c]"] by blast
    then show ?thesis using go by simp
  qed
qed

lemma subseq_concat_map:
  "(\<And>x. x \<in> set xs \<Longrightarrow> subseq (f x) (g x)) \<Longrightarrow>
   subseq (concat (map f xs)) (concat (map g xs))"
proof (induction xs)
  case Nil
  then show ?case by simp
next
  case (Cons x xs)
  have "subseq (f x) (g x)" using Cons.prems by simp
  moreover have "subseq (concat (map f xs)) (concat (map g xs))"
    using Cons by simp
  ultimately show ?case
    by (simp add: list_emb_append_mono)
qed

lemma itercommands_subseq:
  "subseq (itercommands b channel) (concat (map (\<lambda>(n, u). p_commands u) (plugins b)))"
  unfolding itercommands_def by (rule subseq_concat_map) (auto split: prod.splits)

lemma fire_command_subseq:
  "subseq (snd (fire_command b user channel message)) (map h_name (itercommands b channel))"
  using command_loop_trace[of _ _ _ user channel message "itercommands b channel" PNone "[]"]
  by (auto simp: fire_command_def split: prod.splits)

lemma itercommands_blacklisted:
  assumes "h \<in> set (itercommands b channel)" "channel \<noteq> PNone"
  shows "\<exists>(n, u) \<in> set (plugins b). channel \<notin> set (p_blacklist u) \<and> h \<in> set (p_commands u)"
  using assms by (auto simp: itercommands_def split: if_splits)

text \<open>
  C4. A loaded unit has the invoking channel in its blacklist, and its handler \<open>h\<close> is
  not also a handler of a unit that is not blacklisted for the channel. Then
  \<^verbatim>\<open>fire_command\<close> does not invoke \<open>h\<close>, whatever its command tokens and its pattern.
\<close>

theorem fire_command_blacklist:
  assumes unit: "(n, u) \<in> set (plugins b)"
    and chan: "channel \<noteq> PNone"
    and black: "channel \<in> set (p_blacklist u)"
    and own: "h \<in> set (p_commands u)"
    and unshared: "\<forall>(n', u') \<in> set (plugins b).
                     channel \<notin> set (p_blacklist u') \<longrightarrow> h_name h \<notin> h_name ` set (p_commands u')"
  shows "h_name h \<notin> set (snd (fire_command b user channel message))"
proof
  assume "h_name h \<in> set (snd (fire_command b user channel message))"
  then have "h_name h \<in> set (map h_name (itercommands b channel))"
    using fire_command_subseq[of b user channel message] by (auto elim: list_emb_set)
  then obtain h' where h': "h' \<in> set (itercommands b channel)" and eq: "h_name h' = h_name h"
    by auto
  from itercommands_blacklisted[OF h' chan] obtain n' u' where
    u': "(n', u') \<in> set (plugins b)" "channel \<notin> set (p_blacklist u')"
    and mem: "h' \<in> set (p_commands u')"
    by auto
  from unshared u' have "h_name h \<notin> h_name ` set (p_commands u')"
    by auto
  moreover from mem eq have "h_name h \<in> h_name ` set (p_commands u')"
    by (metis imageI)
  ultimately show False by contradiction
qed

text \<open>
  Witness of C4: \<open>alpha\<close> is blacklisted for the channel object 7 and \<open>zeta\<close> is not; both
  answer the token \<^verbatim>\<open>hi\<close>. Only the handler of \<open>zeta\<close> runs.
\<close>

theorem fire_command_blacklist_witness:
  "map (\<lambda>(n, u). (n, p_blacklist u, map h_name (p_commands u))) (plugins alpha_blacklisted) =
     [(''zeta'', [], [''zeta.hi'']), (''alpha'', [PObj 7], [''alpha.hi''])]
   \<and> ''alpha.hi'' \<notin> set (snd (fire_command alpha_blacklisted (PObj 1) (PObj 7) ''hi there''))
   \<and> snd (fire_command alpha_blacklisted (PObj 1) (PObj 7) ''hi there'') = [''zeta.hi'']"
proof -
  let ?h = "command_handler ''alpha.hi'' [''hi''] (Returns PNone)"
  let ?u = "unit_of ''alpha'' ''plugins.alpha'' ?h [PObj 7]"
  have unit: "(''alpha'', ?u) \<in> set (plugins alpha_blacklisted)"
    by (simp add: alpha_blacklisted_eq)
  have chan: "PObj 7 \<noteq> PNone"
    by simp
  have black: "PObj 7 \<in> set (p_blacklist ?u)"
    by (simp add: unit_of_def)
  have own: "?h \<in> set (p_commands ?u)"
    by (simp add: unit_of_def)
  have unshared: "\<forall>(n', u') \<in> set (plugins alpha_blacklisted).
      PObj 7 \<notin> set (p_blacklist u') \<longrightarrow> h_name ?h \<notin> h_name ` set (p_commands u')"
    by (simp add: alpha_blacklisted_eq unit_of_def command_handler_def)
  have shape: "map (\<lambda>(n, u). (n, p_blacklist u, map h_name (p_commands u)))
      (plugins alpha_blacklisted) =
     [(''zeta'', [], [''zeta.hi'']), (''alpha'', [PObj 7], [''alpha.hi''])]"
    by (simp add: alpha_blacklisted_eq unit_of_def command_handler_def)
  have trace: "snd (fire_command alpha_blacklisted (PObj 1) (PObj 7) ''hi there'') = [''zeta.hi'']"
    by (simp add: alpha_blacklisted_eq fire_command_def itercommands_def str_partition_def
        unit_of_def command_handler_def)
  from fire_command_blacklist[OF unit chan black own unshared, of "PObj 1" "''hi there''"]
  have "''alpha.hi'' \<notin> set (snd (fire_command alpha_blacklisted (PObj 1) (PObj 7) ''hi there''))"
    by (simp add: command_handler_def)
  with shape trace show ?thesis by blast
qed

lemma unload_keys:
  "map_of (plugins b) p \<noteq> None \<Longrightarrow>
   \<exists>failed b'. unload b [p] = Return failed b'
     \<and> map fst (plugins b') = removeAll p (map fst (plugins b))"
  by (auto simp: unload_def unregister_plugin_callbacks_def Let_def delete_keys update_keys
           split: prod.splits option.splits)

lemma unload_present_keys:
  "\<exists>failed b'. unload_present b p = Return failed b'
     \<and> map fst (plugins b') = removeAll p (map fst (plugins b))"
proof (cases "map_of (plugins b) p")
  case None
  then have "p \<notin> set (map fst (plugins b))"
    by (simp add: map_of_eq_None_iff)
  then show ?thesis
    using None by (simp add: unload_present_def)
next
  case (Some u)
  then show ?thesis
    using unload_keys[of b p] by (simp add: unload_present_def)
qed

lemma load_appends:
  assumes "load imp b [p] = Return [] b'"
  shows "map fst (plugins b') = removeAll p (map fst (plugins b)) @ [p]"
proof -
  have keys: "unload_present (b\<lparr>event_manager := em\<rparr>) p = Return f b2 \<Longrightarrow>
      map fst (plugins b2) = removeAll p (map fst (plugins b))" for em f b2
    using unload_present_keys[of "b\<lparr>event_manager := em\<rparr>" p] by auto
  show ?thesis
    using assms
    by (auto simp: load_def Let_def update_keys dest!: keys
        split: option.splits sum.splits res.splits)
qed

text \<open>
  C5, as the claim states it, fails: with \<open>zeta\<close> loaded before \<open>alpha\<close>,
  \<^verbatim>\<open>itercommands\<close> yields the handler of \<open>zeta\<close> first and \<^verbatim>\<open>fire_command\<close> invokes it
  first, while the order sorted by identifier starts with \<open>alpha\<close>.
\<close>

theorem itercommands_not_sorted:
  "map fst (plugins two_plugins) = [''zeta'', ''alpha'']
   \<and> map h_name (itercommands two_plugins (PObj 7)) = [''zeta.hi'', ''alpha.hi'']
   \<and> map h_name (itercommands_sorted two_plugins (PObj 7)) = [''alpha.hi'', ''zeta.hi'']
   \<and> snd (fire_command two_plugins (PObj 1) (PObj 7) ''hi there'') = [''zeta.hi'', ''alpha.hi'']"
proof -
  have s: "sort_key fst (plugins two_plugins) = rev (plugins two_plugins)"
    unfolding two_plugins_eq by simp
  show ?thesis
    unfolding itercommands_sorted_def s
    by (simp add: two_plugins_eq itercommands_def fire_command_def str_partition_def
        unit_of_def command_handler_def)
qed

text \<open>
  C5, amended. \<^verbatim>\<open>fire_command\<close> invokes the handlers in the order of the plugin table:
  the handlers it invokes are, in the order of the calls, a subsequence of the commands
  of the units in table order. The table is in insertion order: a load of one identifier
  that succeeds puts the unit last, also when it replaces a unit loaded before.
\<close>

theorem fire_command_insertion_order:
  "subseq (snd (fire_command b user channel message))
          (map h_name (concat (map (\<lambda>(n, u). p_commands u) (plugins b))))
   \<and> (load imp b [p] = Return [] b'
        \<longrightarrow> map fst (plugins b') = removeAll p (map fst (plugins b)) @ [p])"
proof -
  have "subseq (map h_name (itercommands b channel))
          (map h_name (concat (map (\<lambda>(n, u). p_commands u) (plugins b))))"
    by (rule subseq_map) (rule itercommands_subseq)
  with fire_command_subseq[of b user channel message]
  have "subseq (snd (fire_command b user channel message))
          (map h_name (concat (map (\<lambda>(n, u). p_commands u) (plugins b))))"
    by (rule subseq_order.order_trans)
  then show ?thesis
    using load_appends by blast
qed

text \<open>
  Witness of C5, amended: \<open>zeta\<close> and \<open>alpha\<close> are loaded in this order and \<open>zeta\<close> is
  loaded again; it moves behind \<open>alpha\<close>.
\<close>

theorem fire_command_insertion_order_witness:
  "load two_importer two_plugins [''zeta''] = Return [] zeta_reloaded
   \<and> map fst (plugins two_plugins) = [''zeta'', ''alpha'']
   \<and> map fst (plugins zeta_reloaded) = [''alpha'', ''zeta'']
   \<and> subseq (snd (fire_command two_plugins (PObj 1) (PObj 7) ''hi there''))
        [''zeta.hi'', ''alpha.hi'']"
proof -
  have ld: "\<exists>b'. load two_importer two_plugins [''zeta''] = Return [] b'"
    apply (simp add: two_plugins_eq)
    apply (simp add: two_importer_def unit_of_def ex_defs em0_eq engine_defs)
    done
  then have e: "load two_importer two_plugins [''zeta''] = Return [] zeta_reloaded"
    by (auto simp: zeta_reloaded_def)
  have k: "map fst (plugins two_plugins) = [''zeta'', ''alpha'']"
    by (simp add: two_plugins_eq)
  have cs: "map h_name (concat (map (\<lambda>(n, u). p_commands u) (plugins two_plugins))) =
      [''zeta.hi'', ''alpha.hi'']"
    by (simp add: two_plugins_eq unit_of_def command_handler_def)
  from fire_command_insertion_order[of two_plugins "PObj 1" "PObj 7" "''hi there''"
      two_importer "''zeta''" zeta_reloaded] e k cs
  show ?thesis by simp
qed

end
